theory Spec2Isabelle
  imports Main "HOL-Library.Word"
begin

section \<open>Values shared by the whole program\<close>

text \<open>
  A Go \<^verbatim>\<open>string\<close> and a Go \<^verbatim>\<open>[]byte\<close> are both byte sequences: the model uses
  \<^typ>\<open>char list\<close> for both (a HOL \<^typ>\<open>char\<close> is one byte).
\<close>

type_synonym bytes = "char list"

text \<open>
  Go's \<^verbatim>\<open>error\<close> values. \<^verbatim>\<open>io.EOF\<close> and \<^verbatim>\<open>io.ErrUnexpectedEOF\<close> are the two sentinel
  values the program compares against with \<^verbatim>\<open>==\<close>; every other error is known to the
  program only through its message.
\<close>

datatype err = EOF | ErrUnexpectedEOF | Err string

fun err_Error :: "err \<Rightarrow> string" where
  "err_Error EOF = ''EOF''"
| "err_Error ErrUnexpectedEOF = ''unexpected EOF''"
| "err_Error (Err s) = s"

text \<open>\<^verbatim>\<open>fmt.Errorf("<prefix>: %w", err)\<close>: a new error whose message is the prefix and the cause's.\<close>

definition Errorf :: "string \<Rightarrow> err \<Rightarrow> err" where
  "Errorf prefix e = Err (prefix @ '': '' @ err_Error e)"

text \<open>A run-time panic of the Go program (the process crashes).\<close>

datatype panic = IndexOutOfRange | NilDereference

subsection \<open>Decimal rendering (\<^verbatim>\<open>%d\<close>)\<close>

definition digit :: "nat \<Rightarrow> char" where
  "digit n = ''0123456789'' ! (n mod 10)"

function showNat :: "nat \<Rightarrow> string" where
  "showNat n = (if n < 10 then [digit n] else showNat (n div 10) @ [digit (n mod 10)])"
  by pat_completeness auto
termination
  by (relation "measure (\<lambda>n. n)") auto

declare showNat.simps [simp del]

definition showInt :: "int \<Rightarrow> string" where
  "showInt i = (if i < 0 then CHR ''-'' # showNat (nat (- i)) else showNat (nat i))"

text \<open>
  \<^verbatim>\<open>appendInt(b, x, width)\<close> of package time: the sign, then the decimal digits padded
  with zeros on the left to \<open>width\<close>.
\<close>

definition padInt :: "nat \<Rightarrow> int \<Rightarrow> string" where
  "padInt width x =
     (let ds = showNat (nat \<bar>x\<bar>)
      in (if x < 0 then ''-'' else '''') @ replicate (width - length ds) CHR ''0'' @ ds)"

subsection \<open>UTF-8 as package \<^verbatim>\<open>unicode/utf8\<close> decodes it\<close>

definition byte :: "char \<Rightarrow> int" where
  "byte c = of_char c"

definition RuneError :: int where
  "RuneError = 0xFFFD"

text \<open>
  \<^verbatim>\<open>utf8.DecodeRuneInString\<close>: the rune at the head of the string and its width in bytes.
  An empty string gives \<open>(RuneError, 0)\<close>, an invalid or short encoding \<open>(RuneError, 1)\<close>.
  The second byte's accepted range depends on the first byte (the table \<^verbatim>\<open>acceptRanges\<close>).
\<close>

definition cont :: "int \<Rightarrow> bool" where
  "cont b = (0x80 \<le> b \<and> b \<le> 0xBF)"

fun DecodeRune :: "bytes \<Rightarrow> int \<times> nat" where
  "DecodeRune [] = (RuneError, 0)"
| "DecodeRune (c0 # cs) =
     (let b0 = byte c0 in
      if b0 < 0x80 then (b0, 1)
      else if b0 < 0xC2 \<or> 0xF4 < b0 then (RuneError, 1)
      else
        (let sz = (if b0 < 0xE0 then 2 else if b0 < 0xF0 then 3 else 4 :: nat);
             lo = (if b0 = 0xE0 then 0xA0 else if b0 = 0xF0 then 0x90 else 0x80 :: int);
             hi = (if b0 = 0xED then 0x9F else if b0 = 0xF4 then 0x8F else 0xBF :: int)
         in if length (c0 # cs) < sz then (RuneError, 1)
            else
              (let b1 = byte (cs ! 0) in
               if b1 < lo \<or> hi < b1 then (RuneError, 1)
               else if sz = 2 then ((b0 mod 0x20) * 0x40 + b1 mod 0x40, 2)
               else
                 (let b2 = byte (cs ! 1) in
                  if \<not> cont b2 then (RuneError, 1)
                  else if sz = 3 then
                    ((b0 mod 0x10) * 0x1000 + (b1 mod 0x40) * 0x40 + b2 mod 0x40, 3)
                  else
                    (let b3 = byte (cs ! 2) in
                     if \<not> cont b3 then (RuneError, 1)
                     else ((b0 mod 8) * 0x40000 + (b1 mod 0x40) * 0x1000
                             + (b2 mod 0x40) * 0x40 + b3 mod 0x40, 4))))))"

text \<open>
  \<^verbatim>\<open>strings.Map(mapping, s)\<close> for a mapping that either keeps a rune or drops it (returns
  a negative value): the runes of \<open>s\<close> are decoded one after the other, an invalid byte
  counting as one \<open>RuneError\<close> of width 1, and the encodings of the runes kept are
  concatenated. A kept \<open>RuneError\<close> would be written as \<^verbatim>\<open>EF BF BD\<close>.
\<close>

definition encodeKept :: "int \<Rightarrow> bytes \<Rightarrow> bytes" where
  "encodeKept r enc = (if r = RuneError then [CHR 0xEF, CHR 0xBF, CHR 0xBD] else enc)"

function MapKeep :: "(int \<Rightarrow> bool) \<Rightarrow> bytes \<Rightarrow> bytes" where
  "MapKeep keep [] = []"
| "MapKeep keep (c # cs) =
     (let (r, w) = DecodeRune (c # cs)
      in (if keep r then encodeKept r (take w (c # cs)) else [])
           @ MapKeep keep (drop (w - 1) cs))"
  by pat_completeness auto
termination
  by (relation "measure (\<lambda>(keep, s). length s)") auto

declare MapKeep.simps [simp del]

text \<open>
  \<^verbatim>\<open>imap.fixUtf\<close>: the callback maps \<^verbatim>\<open>utf8.RuneError\<close> to -1 (dropped) and every other
  rune to itself.
\<close>

definition fixUtf :: "string \<Rightarrow> string" where
  "fixUtf str = MapKeep (\<lambda>r. r \<noteq> RuneError) str"

text \<open>\<^verbatim>\<open>strings.ReplaceAll(s, "/", "-")\<close>: both are single bytes, so this is a byte map.\<close>

definition ReplaceAllSlash :: "string \<Rightarrow> string" where
  "ReplaceAllSlash s = map (\<lambda>c. if c = CHR ''/'' then CHR ''-'' else c) s"

subsection \<open>\<^verbatim>\<open>strings.TrimSpace\<close>\<close>

text \<open>\<^verbatim>\<open>utf8.RuneStart(b)\<close>: \<^verbatim>\<open>b&0xC0 != 0x80\<close>.\<close>

definition RuneStart :: "int \<Rightarrow> bool" where
  "RuneStart b = (b div 0x40 \<noteq> 2)"

text \<open>
  \<^verbatim>\<open>utf8.DecodeLastRuneInString\<close>. The backward search for the start of the last rune looks
  at most \<^verbatim>\<open>UTFMax = 4\<close> bytes back; \<open>lastStart\<close> is the value of \<^verbatim>\<open>start\<close> when that loop
  ends (it may be one below the limit when no byte is a rune start).
\<close>

definition lastStart :: "bytes \<Rightarrow> int" where
  "lastStart s =
     (let e = int (length s); lim = max 0 (e - 4)
      in case filter (\<lambda>k. lim \<le> k \<and> RuneStart (byte (s ! nat k))) [e - 2, e - 3, e - 4] of
           k # _ \<Rightarrow> k
         | [] \<Rightarrow> lim - 1)"

definition DecodeLastRune :: "bytes \<Rightarrow> int \<times> nat" where
  "DecodeLastRune s =
     (if s = [] then (RuneError, 0)
      else if byte (last s) < 0x80 then (byte (last s), 1)
      else
        (let start = nat (max 0 (lastStart s));
             (r, size) = DecodeRune (drop start s)
         in if start + size \<noteq> length s then (RuneError, 1) else (r, size)))"

text \<open>\<^verbatim>\<open>unicode.IsSpace\<close>: the Latin-1 cases, then the \<^verbatim>\<open>White_Space\<close> table.\<close>

definition IsSpace :: "int \<Rightarrow> bool" where
  "IsSpace r =
     (if r \<le> 0xFF then r \<in> {0x09, 0x0A, 0x0B, 0x0C, 0x0D, 0x20, 0x85, 0xA0}
      else r = 0x1680 \<or> (0x2000 \<le> r \<and> r \<le> 0x200A) \<or> r = 0x2028 \<or> r = 0x2029
           \<or> r = 0x202F \<or> r = 0x205F \<or> r = 0x3000)"

text \<open>The table \<^verbatim>\<open>asciiSpace\<close> of package strings.\<close>

definition asciiSpace :: "char \<Rightarrow> bool" where
  "asciiSpace c = (byte c \<in> {0x09, 0x0A, 0x0B, 0x0C, 0x0D, 0x20})"

function TrimLeftFunc :: "(int \<Rightarrow> bool) \<Rightarrow> string \<Rightarrow> string" where
  "TrimLeftFunc f [] = []"
| "TrimLeftFunc f (c # cs) =
     (let (r, w) = DecodeRune (c # cs)
      in if \<not> f r then c # cs else TrimLeftFunc f (drop (w - 1) cs))"
  by pat_completeness auto
termination
  by (relation "measure (\<lambda>(f, s). length s)") auto

declare TrimLeftFunc.simps [simp del]

text \<open>
  \<^verbatim>\<open>lastIndexFunc(s, f, false)\<close>: the index of the last rune on which \<open>f\<close> is false, -1 when
  there is none. The loop \<^verbatim>\<open>for i := len(s); i > 0;\<close> works on the prefix \<^verbatim>\<open>s[0:i]\<close>, which
  is the argument here. The fuel is the length of the string: every turn of the loop
  removes at least one byte from a non-empty prefix.
\<close>

fun lastIndexFunc :: "nat \<Rightarrow> (int \<Rightarrow> bool) \<Rightarrow> string \<Rightarrow> int" where
  "lastIndexFunc 0 f s = - 1"
| "lastIndexFunc (Suc fuel) f s =
     (if s = [] then - 1
      else
        (let (r, size) = DecodeLastRune s; i = length s - size
         in if \<not> f r then int i else lastIndexFunc fuel f (take i s)))"

definition TrimRightFunc :: "(int \<Rightarrow> bool) \<Rightarrow> string \<Rightarrow> string" where
  "TrimRightFunc f s =
     (let i = lastIndexFunc (length s) f s
      in if 0 \<le> i \<and> 0x80 \<le> byte (s ! nat i)
         then take (nat i + snd (DecodeRune (drop (nat i) s))) s
         else take (nat (i + 1)) s)"

definition TrimFunc :: "(int \<Rightarrow> bool) \<Rightarrow> string \<Rightarrow> string" where
  "TrimFunc f s = TrimRightFunc f (TrimLeftFunc f s)"

text \<open>
  The second loop of \<^verbatim>\<open>TrimSpace\<close>: from the end, drop ASCII spaces; at a non-ASCII byte
  fall back to \<^verbatim>\<open>TrimRightFunc\<close> on what is left.
\<close>

function trimSpaceRight :: "string \<Rightarrow> string" where
  "trimSpaceRight s =
     (if s = [] then []
      else if 0x80 \<le> byte (last s) then TrimRightFunc IsSpace s
      else if asciiSpace (last s) then trimSpaceRight (butlast s)
      else s)"
  by pat_completeness auto
termination
  by (relation "measure length") auto

declare trimSpaceRight.simps [simp del]

text \<open>
  \<^verbatim>\<open>strings.TrimSpace\<close>: the first loop drops leading ASCII spaces and falls back to
  \<^verbatim>\<open>TrimFunc\<close> at a non-ASCII byte; then the second loop runs on the rest.
\<close>

fun TrimSpace :: "string \<Rightarrow> string" where
  "TrimSpace [] = []"
| "TrimSpace (c # cs) =
     (if 0x80 \<le> byte c then TrimFunc IsSpace (c # cs)
      else if asciiSpace c then TrimSpace cs
      else trimSpaceRight (c # cs))"

subsection \<open>Calendar dates and their two layouts\<close>

text \<open>
  A \<^verbatim>\<open>time.Time\<close> is seen through the calendar date it has in its own location, which is
  all that \<^verbatim>\<open>Format("200601")\<close> and \<^verbatim>\<open>Format("2006-01-02")\<close> read.
\<close>

record time =
  tm_year :: int
  tm_month :: nat
  tm_day :: nat

definition Format_200601 :: "time \<Rightarrow> string" where
  "Format_200601 t = padInt 4 (tm_year t) @ padInt 2 (int (tm_month t))"

definition Format_2006_01_02 :: "time \<Rightarrow> string" where
  "Format_2006_01_02 t =
     padInt 4 (tm_year t) @ ''-'' @ padInt 2 (int (tm_month t)) @ ''-'' @ padInt 2 (int (tm_day t))"

section \<open>The data model (mail.go)\<close>

text \<open>\<^verbatim>\<open>imap.Address\<close>, the three fields the program reads.\<close>

record address =
  PersonalName :: string
  MailboxName :: string
  HostName :: string

record attachment =
  Filename :: string
  att_Body :: bytes
  Mimetype :: string

text \<open>
  \<^verbatim>\<open>type mail struct\<close>. A nil slice and an empty slice are both the empty list; \<open>Error\<close>
  is \<open>None\<close> for a nil error.
\<close>

record mail =
  Uid :: "32 word"
  MessageID :: string
  Subject :: string
  From :: "address list"
  Date :: time
  Body :: "bytes list"
  Attachments :: "attachment list"
  MimeType :: string
  MultipartMimeType :: "string list"
  AttachmentMimeType :: "string list"
  Error :: "err option"

text \<open>\<^verbatim>\<open>new(mail)\<close>: every field has its zero value.\<close>

definition new_mail :: mail where
  "new_mail = \<lparr>Uid = 0, MessageID = [], Subject = [], From = [],
     Date = \<lparr>tm_year = 1, tm_month = 1, tm_day = 1\<rparr>, Body = [], Attachments = [],
     MimeType = [], MultipartMimeType = [], AttachmentMimeType = [], Error = None\<rparr>"

subsection \<open>The collaborators: content sniffer, counter, MIME reader\<close>

text \<open>
  \<^verbatim>\<open>mimetype.Detect\<close> (package gabriel-vasile/mimetype) is a parameter of the model: a
  total function from the bytes to a MIME value, of which the program reads \<^verbatim>\<open>String()\<close>
  and \<^verbatim>\<open>Extension()\<close>. Detect never returns nil, so the tests \<^verbatim>\<open>mtype != nil\<close> of
  fetchMessages always succeed.
\<close>

record mime =
  mime_String :: string
  mime_Extension :: string

type_synonym detector = "bytes \<Rightarrow> mime"

text \<open>
  Modelled from the spec: package \<^verbatim>\<open>counter\<close> of this repository (CreateCounter, Next,
  Current) is not among the source files. The spec says of it that the ordinal is
  "per-message and monotonically increasing starting at the first unnamed attachment
  encountered"; generatePdf reads \<^verbatim>\<open>Current() == 0\<close> as "Next was never called". The
  counter is a number that starts at 0; Next adds one and returns the new value.
\<close>

type_synonym counter = nat

definition CreateCounter :: counter where
  "CreateCounter = 0"

definition Next :: "counter \<Rightarrow> int \<times> counter" where
  "Next c = (int (Suc c), Suc c)"

definition Current :: "counter \<Rightarrow> int" where
  "Current c = int c"

text \<open>
  One result of \<^verbatim>\<open>reader.NextPart()\<close> that is a part: the type switch of fetchBody
  knows an inline header and an attachment header. An inline part carries what
  \<^verbatim>\<open>io.ReadAll(part.Body)\<close> returns; an attachment part what \<^verbatim>\<open>header.Filename()\<close>
  returns, then what \<^verbatim>\<open>io.ReadAll(part.Body)\<close> returns.
\<close>

datatype part =
  InlinePart "err + bytes"
| AttachmentPart "err + string" "err + bytes"

text \<open>
  A \<^verbatim>\<open>mail.Reader\<close> of go-message, as the program observes it: what
  \<^verbatim>\<open>Header.ContentType()\<close> returns, the parts that NextPart returns in order, the error
  NextPart returns after them (\<open>EOF\<close> at the regular end), and what \<^verbatim>\<open>Close()\<close> returns.
\<close>

record reader =
  ContentType :: "err + string"
  parts :: "part list"
  NextPart_err :: err
  Close :: "err option"

subsection \<open>fetchBody\<close>

text \<open>\<^verbatim>\<open>fmt.Sprintf("%d-%d%s", mail.Uid, count.Next(), mime.Extension())\<close>.\<close>

definition synthName :: "32 word \<Rightarrow> int \<Rightarrow> string \<Rightarrow> string" where
  "synthName uid n ext = showNat (unat uid) @ ''-'' @ showInt n @ ext"

text \<open>
  One turn of the loop of fetchBody, for the part that NextPart returned. The state is
  the three local variables \<^verbatim>\<open>bodies\<close>, \<^verbatim>\<open>attachments\<close> and \<^verbatim>\<open>count\<close>; \<open>Inl\<close> is the
  error returned from inside the loop, \<open>Inr\<close> the state the next turn starts from
  (unchanged after \<^verbatim>\<open>continue\<close>).
\<close>

type_synonym fetch_state = "bytes list \<times> attachment list \<times> counter"

fun fetchBody_part :: "detector \<Rightarrow> 32 word \<Rightarrow> part \<Rightarrow> fetch_state \<Rightarrow> err + fetch_state" where
  "fetchBody_part D uid (InlinePart rd) (bodies, attachments, count) =
     (case rd of
        Inl er \<Rightarrow> if er = ErrUnexpectedEOF then Inr (bodies, attachments, count) else Inl er
      | Inr body \<Rightarrow> Inr (bodies @ [body], attachments, count))"
| "fetchBody_part D uid (AttachmentPart fn rd) (bodies, attachments, count) =
     (case fn of
        Inl er \<Rightarrow> Inl er
      | Inr filename \<Rightarrow>
          (case rd of
             Inl er \<Rightarrow> Inl er
           | Inr body \<Rightarrow>
               (let mime = D body;
                    (filename1, count1) =
                      (if filename = [] then
                         (let (n, c) = Next count in (synthName uid n (mime_Extension mime), c))
                       else (filename, count));
                    filename2 = fixUtf filename1;
                    filename3 = ReplaceAllSlash filename2
                in Inr (bodies, attachments @ [\<lparr>Filename = filename3, att_Body = body,
                          Mimetype = mime_String mime\<rparr>], count1))))"

text \<open>
  The loop \<^verbatim>\<open>for { part, err := reader.NextPart() ... }\<close>: \<open>ps\<close> are the parts NextPart
  still has to return and \<open>e\<close> the error it returns after them. The result is the error
  returned from inside the loop, or the two slices when the loop is left by \<^verbatim>\<open>break\<close>.
\<close>

fun fetchBody_loop ::
  "detector \<Rightarrow> 32 word \<Rightarrow> err \<Rightarrow> part list \<Rightarrow> fetch_state \<Rightarrow> err + (bytes list \<times> attachment list)" where
  "fetchBody_loop D uid e [] (bodies, attachments, count) =
     (if e = EOF \<or> err_Error e = ''multipart: NextPart: EOF'' then Inr (bodies, attachments)
      else Inl e)"
| "fetchBody_loop D uid e (p # ps) st =
     (case fetchBody_part D uid p st of
        Inl er \<Rightarrow> Inl er
      | Inr st' \<Rightarrow> fetchBody_loop D uid e ps st')"

text \<open>
  \<^verbatim>\<open>func (mail *mail) fetchBody(reader *m.Reader) error\<close>: the returned error and the
  mail as the call leaves it. MimeType is overwritten when the header's content type
  parses; Body and Attachments are assigned only when the loop ends without an error.
\<close>

definition fetchBody :: "detector \<Rightarrow> mail \<Rightarrow> reader \<Rightarrow> err option \<times> mail" where
  "fetchBody D m r =
     (let m1 = (case ContentType r of Inr contentType \<Rightarrow> m\<lparr>MimeType := contentType\<rparr> | Inl _ \<Rightarrow> m)
      in case fetchBody_loop D (Uid m1) (NextPart_err r) (parts r) ([], [], CreateCounter) of
           Inl er \<Rightarrow> (Some er, m1)
         | Inr (bodies, attachments) \<Rightarrow> (None, m1\<lparr>Body := bodies, Attachments := attachments\<rparr>))"

section \<open>The fetch pipeline (fetchMessages and the producer goroutine of main)\<close>

record envelope =
  env_MessageId :: string
  env_Subject :: string
  env_From :: "address list"
  env_Date :: time

record bodyStructure =
  MIMEType :: string
  MIMESubType :: string

text \<open>
  What \<^verbatim>\<open>m.CreateReader(reader)\<close> returns for a body section: a reader and no error, or
  an error together with a reader that may be nil.
\<close>

datatype created = Created reader | CreateFailed err "reader option"

text \<open>
  An \<^verbatim>\<open>imap.Message\<close> as the program reads it. \<open>Envelope\<close> and \<open>BodyStructure\<close> are
  pointers (\<open>None\<close> is nil). \<open>GetBody\<close> is \<open>None\<close> when \<^verbatim>\<open>message.GetBody(section)\<close>
  returns nil; otherwise it holds the section, seen through what CreateReader makes of it.
\<close>

record message =
  msg_Uid :: "32 word"
  Envelope :: "envelope option"
  BodyStructure :: "bodyStructure option"
  GetBody :: "created option"

text \<open>\<^verbatim>\<open>fetchMeta\<close> dereferences \<^verbatim>\<open>message.Envelope\<close>.\<close>

definition fetchMeta :: "mail \<Rightarrow> message \<Rightarrow> panic + mail" where
  "fetchMeta m msg =
     (case Envelope msg of
        None \<Rightarrow> Inl NilDereference
      | Some env \<Rightarrow>
          Inr (m\<lparr>Uid := msg_Uid msg, MessageID := env_MessageId env, Subject := env_Subject env,
                 From := env_From env, Date := env_Date env\<rparr>))"

text \<open>
  The two loops of fetchMessages that sniff the bodies: \<open>acc\<close> is the slice appended to.
\<close>

fun sniff_loop :: "detector \<Rightarrow> bytes list \<Rightarrow> string list \<Rightarrow> string list" where
  "sniff_loop D [] acc = acc"
| "sniff_loop D (body # bodies) acc =
     sniff_loop D bodies (if 0 < length body then acc @ [mime_String (D body)] else acc)"

text \<open>How a function of the program ends: it returns, it calls \<^verbatim>\<open>log.Fatal\<close>, or it panics.\<close>

datatype outcome = Return "err option" | LogFatal err | Panics panic

text \<open>
  One turn of the loop \<^verbatim>\<open>for message := range messages\<close>: either the mail sent on
  \<^verbatim>\<open>mailsChan\<close> and the loop goes on, or the loop ends there, after sending a mail or not.
\<close>

datatype iteration = Continue mail | Stop "mail option" outcome

definition closeReader :: "reader option \<Rightarrow> mail \<Rightarrow> iteration" where
  "closeReader mailReader m =
     (case mailReader of
        None \<Rightarrow> Continue m
      | Some r \<Rightarrow> (case Close r of None \<Rightarrow> Continue m | Some ce \<Rightarrow> Stop (Some m) (LogFatal ce)))"

text \<open>
  The part of the loop body of fetchMessages that follows a successful CreateReader, up
  to the send: the two type lists are reset, \<^verbatim>\<open>mail.Error = mail.fetchBody(mailReader)\<close>,
  then the two sniffing loops.
\<close>

definition parseMail :: "detector \<Rightarrow> mail \<Rightarrow> reader \<Rightarrow> mail" where
  "parseMail D m2 r =
     (let m3 = m2\<lparr>MultipartMimeType := [], AttachmentMimeType := []\<rparr>;
          (er, m4) = fetchBody D m3 r;
          m5 = m4\<lparr>Error := er\<rparr>;
          m6 = m5\<lparr>MultipartMimeType := sniff_loop D (Body m5) (MultipartMimeType m5)\<rparr>
      in m6\<lparr>AttachmentMimeType :=
              sniff_loop D (map att_Body (Attachments m6)) (AttachmentMimeType m6)\<rparr>)"

definition fetchMessage :: "detector \<Rightarrow> message \<Rightarrow> iteration" where
  "fetchMessage D msg =
     (case fetchMeta new_mail msg of
        Inl p \<Rightarrow> Stop None (Panics p)
      | Inr m1 \<Rightarrow>
          (let m2 = (case BodyStructure msg of
                       Some bs \<Rightarrow> m1\<lparr>MimeType := MIMEType bs @ ''/'' @ MIMESubType bs\<rparr>
                     | None \<Rightarrow> m1)
           in case GetBody msg of
                None \<Rightarrow> Stop None (Return (Some (Err ''no reader'')))
              | Some (CreateFailed er mailReader) \<Rightarrow> closeReader mailReader (m2\<lparr>Error := Some er\<rparr>)
              | Some (Created r) \<Rightarrow> closeReader (Some r) (parseMail D m2 r)))"

text \<open>
  The loop over the messages that \<^verbatim>\<open>UidFetch\<close> delivers on the channel \<^verbatim>\<open>messages\<close>:
  the mails sent on \<^verbatim>\<open>mailsChan\<close>, in order, and how fetchMessages ends.
\<close>

fun fetchMessages_loop :: "detector \<Rightarrow> message list \<Rightarrow> mail list \<times> outcome" where
  "fetchMessages_loop D [] = ([], Return None)"
| "fetchMessages_loop D (msg # msgs) =
     (case fetchMessage D msg of
        Continue m \<Rightarrow> (let (ms, out) = fetchMessages_loop D msgs in (m # ms, out))
      | Stop sent out \<Rightarrow> ((case sent of None \<Rightarrow> [] | Some m \<Rightarrow> [m]), out))"

text \<open>
  The message source. \<^verbatim>\<open>imap.Client.UidFetch(seqset, items, messages)\<close> sends messages on
  the channel, closes it and returns an error or nil; fetchMessages only logs that
  error. A sequence set is the list of identifiers it was made from (createSeqSet).
\<close>

type_synonym seqset = "32 word list"

record client =
  UidFetch :: "seqset \<Rightarrow> message list \<times> err option"

definition createSeqSet :: "32 word list \<Rightarrow> seqset" where
  "createSeqSet uids = uids"

definition fetchMessages :: "detector \<Rightarrow> client \<Rightarrow> seqset \<Rightarrow> mail list \<times> outcome" where
  "fetchMessages D C seqset = fetchMessages_loop D (fst (UidFetch C seqset))"

text \<open>
  The producer goroutine of main: \<^verbatim>\<open>if err = imap.fetchMessages(...); err != nil
  { log.Fatal(err) }; close(mailsChan)\<close>. Its trace on \<^verbatim>\<open>mailsChan\<close> is the sends followed
  by the close, when it gets that far; \<open>Return None\<close> says the goroutine ended normally.
\<close>

datatype chan_event = Send mail | CloseChan

definition producer :: "detector \<Rightarrow> client \<Rightarrow> seqset \<Rightarrow> chan_event list \<times> outcome" where
  "producer D C seqset =
     (case fetchMessages D C seqset of
        (ms, Return None) \<Rightarrow> (map Send ms @ [CloseChan], Return None)
      | (ms, Return (Some e)) \<Rightarrow> (map Send ms, LogFatal e)
      | (ms, LogFatal e) \<Rightarrow> (map Send ms, LogFatal e)
      | (ms, Panics p) \<Rightarrow> (map Send ms, Panics p))"

section \<open>The file system\<close>

text \<open>
  The files (path to content), the directories made, and for each operation of package
  \<^verbatim>\<open>os\<close> the program calls, whether the environment lets it fail. A failed
  \<^verbatim>\<open>os.WriteFile\<close> may leave the file untouched (\<open>None\<close>) or holding some other content,
  such as a truncated one. \<^verbatim>\<open>os.Rename\<close> is atomic: it fails and changes nothing, or the
  new path holds the content of the old one, which is gone.
\<close>

record filesys =
  files :: "string \<rightharpoonup> bytes"
  dirs :: "string set"
  MkdirAll_err :: "string \<Rightarrow> err option"
  WriteFile_err :: "string \<Rightarrow> bytes \<Rightarrow> (err \<times> bytes option) option"
  Rename_err :: "string \<Rightarrow> string \<Rightarrow> err option"
  Remove_err :: "string \<Rightarrow> err option"

definition MkdirAll :: "string \<Rightarrow> filesys \<Rightarrow> err option \<times> filesys" where
  "MkdirAll dir fs =
     (case MkdirAll_err fs dir of
        Some e \<Rightarrow> (Some e, fs)
      | None \<Rightarrow> (None, fs\<lparr>dirs := insert dir (dirs fs)\<rparr>))"

definition WriteFile :: "string \<Rightarrow> bytes \<Rightarrow> filesys \<Rightarrow> err option \<times> filesys" where
  "WriteFile name data fs =
     (case WriteFile_err fs name data of
        None \<Rightarrow> (None, fs\<lparr>files := (files fs)(name \<mapsto> data)\<rparr>)
      | Some (e, None) \<Rightarrow> (Some e, fs)
      | Some (e, Some left) \<Rightarrow> (Some e, fs\<lparr>files := (files fs)(name \<mapsto> left)\<rparr>))"

definition Rename :: "string \<Rightarrow> string \<Rightarrow> filesys \<Rightarrow> err option \<times> filesys" where
  "Rename oldpath newpath fs =
     (case Rename_err fs oldpath newpath of
        Some e \<Rightarrow> (Some e, fs)
      | None \<Rightarrow>
          (case files fs oldpath of
             None \<Rightarrow> (Some (Err ''rename: no such file or directory''), fs)
           | Some data \<Rightarrow> (None, fs\<lparr>files := ((files fs)(oldpath := None))(newpath \<mapsto> data)\<rparr>)))"

definition Remove :: "string \<Rightarrow> filesys \<Rightarrow> err option \<times> filesys" where
  "Remove name fs =
     (case Remove_err fs name of
        Some e \<Rightarrow> (Some e, fs)
      | None \<Rightarrow> (None, fs\<lparr>files := (files fs)(name := None)\<rparr>))"

section \<open>The metadata index (mailList)\<close>

record jsonMail =
  json_Uid :: "32 word"
  json_MessageID :: string
  json_Subject :: string
  json_From :: "string list"
  json_Date :: time
  json_Attachments :: "string list"
  json_MimeType :: string
  json_MultipartMimeType :: "string list"
  json_AttachmentMimeType :: "string list"

text \<open>\<^verbatim>\<open>type mailList struct\<close>; the mutex is left out, the model runs one call at a time.\<close>

record mailList =
  Email :: string
  List :: "jsonMail list"
  Vendor :: string
  Server :: string
  path :: string

text \<open>
  Package \<^verbatim>\<open>encoding/json\<close> is a parameter of the model: \<open>Encode\<close> is the encoder toJson
  sets up (no HTML escaping, no indentation), \<open>Unmarshal\<close> is \<^verbatim>\<open>json.Unmarshal\<close> into a
  zero jsonMail, \<open>MarshalIndent\<close> is \<^verbatim>\<open>json.MarshalIndent(ml, "", "  ")\<close>, which reads the
  exported fields of the list.
\<close>

record codec =
  Encode :: "jsonMail \<Rightarrow> err + bytes"
  Unmarshal :: "bytes \<Rightarrow> err + jsonMail"
  MarshalIndent :: "mailList \<Rightarrow> err + bytes"

text \<open>The two \<^verbatim>\<open>Sprintf\<close> of toJson that render an address.\<close>

definition renderAddress :: "address \<Rightarrow> string" where
  "renderAddress addr =
     (if PersonalName addr \<noteq> [] then
        PersonalName addr @ '' <'' @ MailboxName addr @ ''@'' @ HostName addr @ ''>''
      else MailboxName addr @ ''@'' @ HostName addr)"

text \<open>The value \<^verbatim>\<open>jsonData\<close> that toJson builds.\<close>

definition toJsonMail :: "mail \<Rightarrow> jsonMail" where
  "toJsonMail m =
     \<lparr>json_Uid = Uid m, json_MessageID = MessageID m, json_Subject = Subject m,
      json_From = map renderAddress (From m), json_Date = Date m,
      json_Attachments = map Filename (Attachments m), json_MimeType = MimeType m,
      json_MultipartMimeType = MultipartMimeType m,
      json_AttachmentMimeType = AttachmentMimeType m\<rparr>"

text \<open>\<^verbatim>\<open>bytes.TrimRight(b, "\n")\<close>.\<close>

definition TrimRightNewline :: "bytes \<Rightarrow> bytes" where
  "TrimRightNewline b = rev (dropWhile (\<lambda>c. c = CHR 0x0A) (rev b))"

definition toJson :: "codec \<Rightarrow> mail \<Rightarrow> err + bytes" where
  "toJson J m =
     (case Encode J (toJsonMail m) of
        Inl e \<Rightarrow> Inl e
      | Inr buf \<Rightarrow> Inr (TrimRightNewline buf))"

text \<open>
  \<^verbatim>\<open>save\<close>: the returned error and the file system after every step taken (the state
  before the call first). A failure or a crash leaves the file system in one of these
  states.
\<close>

definition save_steps :: "codec \<Rightarrow> mailList \<Rightarrow> filesys \<Rightarrow> err option \<times> filesys list" where
  "save_steps J ml fs =
     (case MarshalIndent J ml of
        Inl e \<Rightarrow> (Some (Errorf ''failed to marshal metadata'' e), [fs])
      | Inr data \<Rightarrow>
          (let tmpPath = path ml @ ''.tmp'' in
           case WriteFile tmpPath data fs of
             (Some e, fs1) \<Rightarrow> (Some (Errorf ''failed to write temporary file'' e), [fs, fs1])
           | (None, fs1) \<Rightarrow>
               (case Rename tmpPath (path ml) fs1 of
                  (Some e, fs2) \<Rightarrow>
                    (Some (Errorf ''failed to save metadata'' e), [fs, fs1, fs2, snd (Remove tmpPath fs2)])
                | (None, fs2) \<Rightarrow> (None, [fs, fs1, fs2]))))"

definition save :: "codec \<Rightarrow> mailList \<Rightarrow> filesys \<Rightarrow> err option \<times> filesys" where
  "save J ml fs = (let (r, states) = save_steps J ml fs in (r, last states))"

text \<open>
  The loop of addMail over \<^verbatim>\<open>ml.List\<close>: the first entry with the Uid is overwritten
  and the loop is left; when there is none, the entry is appended.
\<close>

fun upsert :: "jsonMail list \<Rightarrow> jsonMail \<Rightarrow> jsonMail list" where
  "upsert [] jm = [jm]"
| "upsert (existing # rest) jm =
     (if json_Uid existing = json_Uid jm then jm # rest else existing # upsert rest jm)"

text \<open>
  \<^verbatim>\<open>addMail\<close>: the returned error, the list (it is changed in place before save is
  called, so it stays changed when save fails) and the file system.
\<close>

definition addMail :: "codec \<Rightarrow> mailList \<Rightarrow> mail \<Rightarrow> filesys \<Rightarrow> err option \<times> mailList \<times> filesys" where
  "addMail J ml m fs =
     (case toJson J m of
        Inl e \<Rightarrow> (Some (Errorf ''failed to convert mail to json'' e), ml, fs)
      | Inr jsonData \<Rightarrow>
          (case Unmarshal J jsonData of
             Inl e \<Rightarrow> (Some (Errorf ''failed to parse mail json'' e), ml, fs)
           | Inr jm \<Rightarrow>
               (let ml' = ml\<lparr>List := upsert (List ml) jm\<rparr>;
                    (r, fs') = save J ml' fs
                in (r, ml', fs'))))"

section \<open>The directory name and the text handler\<close>

text \<open>\<^verbatim>\<open>getDirectoryName\<close> reads \<^verbatim>\<open>mail.From[0]\<close>: an empty From list is an index panic.\<close>

definition getDirectoryName :: "string \<Rightarrow> string \<Rightarrow> mail \<Rightarrow> panic + string" where
  "getDirectoryName root username m =
     (case From m of
        [] \<Rightarrow> Inl IndexOutOfRange
      | a # _ \<Rightarrow>
          Inr (root @ ''/'' @ username @ ''/'' @ Format_200601 (Date m) @ ''/'' @ HostName a))"

text \<open>\<^verbatim>\<open>mimeType\<close>: the text before the first semicolon, trimmed.\<close>

definition mimeType :: "string \<Rightarrow> string" where
  "mimeType mime = TrimSpace (takeWhile (\<lambda>c. c \<noteq> CHR '';'') mime)"

text \<open>
  \<^verbatim>\<open>sanitizeSubject\<close>: the class of the regular expression holds nine ASCII characters,
  each replaced by an underscore.
\<close>

definition unsafeChars :: "char set" where
  "unsafeChars = {CHR ''/'', CHR 0x5C, CHR '':'', CHR ''*'', CHR ''?'', CHR 0x22, CHR ''<'', CHR ''>'', CHR ''|''}"

definition sanitizeSubject :: "string \<Rightarrow> string" where
  "sanitizeSubject subject = map (\<lambda>c. if c \<in> unsafeChars then CHR ''_'' else c) (TrimSpace subject)"

text \<open>\<^verbatim>\<open>baseFilename\<close> of the text handler and the two file names made from it.\<close>

definition baseFilename :: "mail \<Rightarrow> string" where
  "baseFilename m =
     sanitizeSubject (Subject m) @ ''-'' @ Format_2006_01_02 (Date m) @ ''-'' @ showNat (unat (Uid m))"

definition txtName :: "string \<Rightarrow> string \<Rightarrow> string" where
  "txtName dir base = dir @ ''/'' @ base @ ''.txt''"

definition htmlName :: "string \<Rightarrow> string \<Rightarrow> string" where
  "htmlName dir base = dir @ ''/'' @ base @ ''.html''"

text \<open>
  The loop of the multipart branch over \<^verbatim>\<open>mail.Body\<close>. A part that is neither plain text
  nor HTML is only logged; the log is not part of the model.
\<close>

fun multipart_loop ::
  "detector \<Rightarrow> string \<Rightarrow> string \<Rightarrow> bytes list \<Rightarrow> filesys \<Rightarrow> err option \<times> filesys" where
  "multipart_loop D dir base [] fs = (None, fs)"
| "multipart_loop D dir base (body # bodies) fs =
     (let detectedMimeType = mime_String (D body) in
      if mimeType detectedMimeType = ''text/plain'' then
        (case WriteFile (txtName dir base) body fs of
           (Some e, fs') \<Rightarrow> (Some (Errorf ''failed to write text file'' e), fs')
         | (None, fs') \<Rightarrow> multipart_loop D dir base bodies fs')
      else if mimeType detectedMimeType = ''text/html'' then
        (case WriteFile (htmlName dir base) body fs of
           (Some e, fs') \<Rightarrow> (Some (Errorf ''failed to write HTML file'' e), fs')
         | (None, fs') \<Rightarrow> multipart_loop D dir base bodies fs')
      else multipart_loop D dir base bodies fs)"

text \<open>
  \<^verbatim>\<open>func (h *TextHandler) Handle(config *Config, mail *mail) error\<close>, for the handler of
  \<open>username\<close>. The configuration is not read. \<open>Inl\<close> is a panic, \<open>Inr\<close> the returned
  error and the file system.
\<close>

definition TextHandler_Handle ::
  "detector \<Rightarrow> string \<Rightarrow> 'cfg \<Rightarrow> mail \<Rightarrow> filesys \<Rightarrow> panic + (err option \<times> filesys)" where
  "TextHandler_Handle D username config m fs =
     (if length (Body m) = 0 then Inr (None, fs)
      else
        (case getDirectoryName ''mail'' username m of
           Inl p \<Rightarrow> Inl p
         | Inr dir \<Rightarrow>
             (case MkdirAll dir fs of
                (Some e, fs1) \<Rightarrow> Inr (Some (Errorf ''failed to create directory'' e), fs1)
              | (None, fs1) \<Rightarrow>
                  (let t = mimeType (MimeType m) in
                   if t = ''text/plain'' then
                     (case WriteFile (txtName dir (baseFilename m)) (hd (Body m)) fs1 of
                        (Some e, fs2) \<Rightarrow> Inr (Some (Errorf ''failed to write text file'' e), fs2)
                      | (None, fs2) \<Rightarrow> Inr (None, fs2))
                   else if t = ''text/html'' then
                     (case WriteFile (htmlName dir (baseFilename m)) (hd (Body m)) fs1 of
                        (Some e, fs2) \<Rightarrow> Inr (Some (Errorf ''failed to write HTML file'' e), fs2)
                      | (None, fs2) \<Rightarrow> Inr (None, fs2))
                   else if t = ''multipart/alternative'' \<or> t = ''multipart/mixed'' then
                     Inr (multipart_loop D dir (baseFilename m) (Body m) fs1)
                   else Inr (None, fs1)))))"

section \<open>The two loops of main\<close>

text \<open>What main writes to the log, without the layout of the lines.\<close>

datatype logline =
  FailedToUpdateMetadata "32 word" err
| ErrorText mail
| HandlerError "32 word" err

text \<open>
  The loop \<^verbatim>\<open>for mail := range mailsChan\<close>, over the mails received: every mail is kept
  in \<^verbatim>\<open>mails\<close>; one without an error is added to the index, and a failure of addMail is
  logged.
\<close>

fun receive_loop ::
  "codec \<Rightarrow> mail list \<Rightarrow> mail list \<times> mailList \<times> filesys \<times> logline list
     \<Rightarrow> mail list \<times> mailList \<times> filesys \<times> logline list" where
  "receive_loop J [] st = st"
| "receive_loop J (m # ms) (mails, ml, fs, lg) =
     (if Error m = None then
        (case addMail J ml m fs of
           (None, ml', fs') \<Rightarrow> receive_loop J ms (mails @ [m], ml', fs', lg)
         | (Some e, ml', fs') \<Rightarrow>
             receive_loop J ms (mails @ [m], ml', fs', lg @ [FailedToUpdateMetadata (Uid m) e]))
      else receive_loop J ms (mails @ [m], ml, fs, lg))"

text \<open>
  A \<^verbatim>\<open>MailHandler\<close>: \<^verbatim>\<open>Handle(config, mail)\<close> acts on the file system and returns an error
  or nil, or panics.
\<close>

type_synonym 'cfg handler = "'cfg \<Rightarrow> mail \<Rightarrow> filesys \<Rightarrow> panic + (err option \<times> filesys)"

text \<open>The inner loop \<^verbatim>\<open>for _, handler := range handlers\<close> for one mail.\<close>

fun handlers_loop ::
  "'cfg handler list \<Rightarrow> 'cfg \<Rightarrow> mail \<Rightarrow> filesys \<times> logline list \<Rightarrow> panic + (filesys \<times> logline list)" where
  "handlers_loop [] config m st = Inr st"
| "handlers_loop (h # hs) config m (fs, lg) =
     (case h config m fs of
        Inl p \<Rightarrow> Inl p
      | Inr (None, fs') \<Rightarrow> handlers_loop hs config m (fs', lg)
      | Inr (Some e, fs') \<Rightarrow> handlers_loop hs config m (fs', lg @ [HandlerError (Uid m) e]))"

text \<open>
  The loop \<^verbatim>\<open>for _, mail := range mails\<close>: a mail with an error is logged and skipped,
  every other mail goes through all handlers.
\<close>

fun process_loop ::
  "'cfg handler list \<Rightarrow> 'cfg \<Rightarrow> mail list \<Rightarrow> filesys \<times> logline list \<Rightarrow> panic + (filesys \<times> logline list)" where
  "process_loop hs config [] st = Inr st"
| "process_loop hs config (m # ms) (fs, lg) =
     (if Error m \<noteq> None then process_loop hs config ms (fs, lg @ [ErrorText m])
      else
        (case handlers_loop hs config m (fs, lg) of
           Inl p \<Rightarrow> Inl p
         | Inr st' \<Rightarrow> process_loop hs config ms st'))"

section \<open>Auxiliary definitions for the properties\<close>

text \<open>
  The state of the loop of fetchBody after the parts \<open>ps\<close>, when none of them made the
  function return.
\<close>

fun fetchBody_parts :: "detector \<Rightarrow> 32 word \<Rightarrow> part list \<Rightarrow> fetch_state \<Rightarrow> err + fetch_state" where
  "fetchBody_parts D uid [] st = Inr st"
| "fetchBody_parts D uid (p # ps) st =
     (case fetchBody_part D uid p st of
        Inl er \<Rightarrow> Inl er
      | Inr st' \<Rightarrow> fetchBody_parts D uid ps st')"

text \<open>
  A content sniffer to evaluate examples with: HTML and PDF by their first bytes, plain
  text otherwise, with the labels and extensions package mimetype gives them.
\<close>

definition sniff :: detector where
  "sniff body =
     (if take 5 body = ''<html'' then \<lparr>mime_String = ''text/html; charset=utf-8'', mime_Extension = ''.html''\<rparr>
      else if take 4 body = ''%PDF'' then \<lparr>mime_String = ''application/pdf'', mime_Extension = ''.pdf''\<rparr>
      else \<lparr>mime_String = ''text/plain; charset=utf-8'', mime_Extension = ''.txt''\<rparr>)"

text \<open>A reader with no part that ends regularly and closes without error.\<close>

definition empty_reader :: reader where
  "empty_reader = \<lparr>ContentType = Inr ''multipart/mixed'', parts = [], NextPart_err = EOF, Close = None\<rparr>"

text \<open>
  Counting the parts of a message: the inline parts, those of them whose read ended in
  an unexpected end of stream, the attachment parts; the bodies of the inline parts that
  were read, and the declared filename and body of the attachment parts that were read.
\<close>

fun isInline :: "part \<Rightarrow> bool" where
  "isInline (InlinePart rd) = True"
| "isInline (AttachmentPart fn rd) = False"

fun isAttachment :: "part \<Rightarrow> bool" where
  "isAttachment (InlinePart rd) = False"
| "isAttachment (AttachmentPart fn rd) = True"

definition isTruncated :: "part \<Rightarrow> bool" where
  "isTruncated p = (p = InlinePart (Inl ErrUnexpectedEOF))"

fun inline_bodies :: "part list \<Rightarrow> bytes list" where
  "inline_bodies [] = []"
| "inline_bodies (InlinePart (Inr body) # ps) = body # inline_bodies ps"
| "inline_bodies (p # ps) = inline_bodies ps"

fun attachment_parts :: "part list \<Rightarrow> (string \<times> bytes) list" where
  "attachment_parts [] = []"
| "attachment_parts (AttachmentPart (Inr filename) (Inr body) # ps) = (filename, body) # attachment_parts ps"
| "attachment_parts (p # ps) = attachment_parts ps"

text \<open>
  The ordinal of the attachment at index \<open>i\<close> among the attachments \<open>xs\<close> of a message:
  one more than the number of attachments before it that declared no filename.
\<close>

definition ordinal :: "(string \<times> bytes) list \<Rightarrow> nat \<Rightarrow> nat" where
  "ordinal xs i = Suc (length (filter (\<lambda>(filename, body). filename = []) (take i xs)))"

text \<open>
  The attachments fetchBody appends for the attachment parts \<open>xs\<close> when the counter
  stands at \<open>c\<close>.
\<close>

fun stored :: "detector \<Rightarrow> 32 word \<Rightarrow> counter \<Rightarrow> (string \<times> bytes) list \<Rightarrow> attachment list" where
  "stored D uid c [] = []"
| "stored D uid c ((filename, body) # xs) =
     (if filename = [] then
        \<lparr>Filename = ReplaceAllSlash (fixUtf (synthName uid (int (Suc c)) (mime_Extension (D body)))),
         att_Body = body, Mimetype = mime_String (D body)\<rparr> # stored D uid (Suc c) xs
      else
        \<lparr>Filename = ReplaceAllSlash (fixUtf filename), att_Body = body,
         Mimetype = mime_String (D body)\<rparr> # stored D uid c xs)"

text \<open>A string of ASCII bytes without a slash, as the extensions of package mimetype are.\<close>

definition clean :: "string \<Rightarrow> bool" where
  "clean s = (\<forall>c \<in> set s. byte c < 0x80 \<and> c \<noteq> CHR ''/'')"

text \<open>
  Messages to evaluate examples with. \<open>example_reader\<close>: an inline part, an inline part
  cut by an unexpected end of stream, an empty inline part, a named attachment with a
  slash in its name, two attachments without a name, the second one empty.
\<close>

definition example_reader :: reader where
  "example_reader = empty_reader\<lparr>parts :=
     [InlinePart (Inr ''hello''), InlinePart (Inl ErrUnexpectedEOF), InlinePart (Inr ''''),
      AttachmentPart (Inr ''a/b.pdf'') (Inr ''%PDF-1.4''),
      AttachmentPart (Inr '''') (Inr ''<html><p>x</p></html>''),
      AttachmentPart (Inr '''') (Inr '''')]\<rparr>"

definition truncated_reader :: reader where
  "truncated_reader = empty_reader\<lparr>parts := [InlinePart (Inl ErrUnexpectedEOF)]\<rparr>"

definition failing_reader :: reader where
  "failing_reader = empty_reader\<lparr>parts :=
     [InlinePart (Inr ''hello''), AttachmentPart (Inr ''a.pdf'') (Inl (Err ''connection reset''))]\<rparr>"

text \<open>The mail one turn of the loop of fetchMessages sends on the channel, if any.\<close>

definition sent_mail :: "iteration \<Rightarrow> mail option" where
  "sent_mail it = (case it of Continue m \<Rightarrow> Some m | Stop sent out \<Rightarrow> sent)"

text \<open>
  A message that lets the loop of fetchMessages go on: it has an envelope and a body
  section, and the mail reader made from the section, if one was made, closes without
  error.
\<close>

fun closes_ok :: "created \<Rightarrow> bool" where
  "closes_ok (Created r) = (Close r = None)"
| "closes_ok (CreateFailed er None) = True"
| "closes_ok (CreateFailed er (Some r)) = (Close r = None)"

definition well_formed :: "message \<Rightarrow> bool" where
  "well_formed msg =
     (Envelope msg \<noteq> None \<and> (case GetBody msg of None \<Rightarrow> False | Some c \<Rightarrow> closes_ok c))"

fun isSend :: "chan_event \<Rightarrow> bool" where
  "isSend (Send m) = True"
| "isSend CloseChan = False"

text \<open>The file system left by the second loop of main, or its panic.\<close>

definition final_files :: "panic + (filesys \<times> logline list) \<Rightarrow> panic + filesys" where
  "final_files res = (case res of Inl p \<Rightarrow> Inl p | Inr (fs, lg) \<Rightarrow> Inr fs)"

text \<open>
  Messages to evaluate examples with: a plain message from \<open>a@b.com\<close>, the same without
  a body section, with a body section CreateReader rejects, and without a sender.
\<close>

definition example_envelope :: envelope where
  "example_envelope = \<lparr>env_MessageId = ''<1@b.com>'', env_Subject = ''Invoice'',
     env_From = [\<lparr>PersonalName = '''', MailboxName = ''a'', HostName = ''b.com''\<rparr>],
     env_Date = \<lparr>tm_year = 2024, tm_month = 1, tm_day = 2\<rparr>\<rparr>"

definition plain_reader :: reader where
  "plain_reader = \<lparr>ContentType = Inr ''text/plain'', parts = [InlinePart (Inr ''hello'')],
     NextPart_err = EOF, Close = None\<rparr>"

definition example_message :: message where
  "example_message = \<lparr>msg_Uid = 7, Envelope = Some example_envelope,
     BodyStructure = Some \<lparr>MIMEType = ''text'', MIMESubType = ''plain''\<rparr>,
     GetBody = Some (Created plain_reader)\<rparr>"

definition example_mail :: mail where
  "example_mail = \<lparr>Uid = 7, MessageID = ''<1@b.com>'', Subject = ''Invoice'',
     From = [\<lparr>PersonalName = '''', MailboxName = ''a'', HostName = ''b.com''\<rparr>],
     Date = \<lparr>tm_year = 2024, tm_month = 1, tm_day = 2\<rparr>, Body = [''hello''], Attachments = [],
     MimeType = ''text/plain'', MultipartMimeType = [''text/plain; charset=utf-8''],
     AttachmentMimeType = [], Error = None\<rparr>"

definition noreader_message :: message where
  "noreader_message = example_message\<lparr>msg_Uid := 8, GetBody := None\<rparr>"

definition unparsable_message :: message where
  "unparsable_message =
     example_message\<lparr>msg_Uid := 9, GetBody := Some (CreateFailed (Err ''malformed MIME header'') None)\<rparr>"

definition nofrom_message :: message where
  "nofrom_message = example_message\<lparr>Envelope := Some (example_envelope\<lparr>env_From := []\<rparr>)\<rparr>"

text \<open>A message source that delivers the listed messages whatever is asked for.\<close>

definition source :: "message list \<Rightarrow> client" where
  "source msgs = \<lparr>UidFetch = (\<lambda>seqset. (msgs, None))\<rparr>"

text \<open>A file system with no file and no failing operation.\<close>

definition empty_fs :: filesys where
  "empty_fs = \<lparr>files = Map.empty, dirs = {}, MkdirAll_err = (\<lambda>dir. None),
     WriteFile_err = (\<lambda>name data. None), Rename_err = (\<lambda>oldpath newpath. None),
     Remove_err = (\<lambda>name. None)\<rparr>"

definition failing_message :: message where
  "failing_message = example_message\<lparr>msg_Uid := 10, GetBody := Some (Created failing_reader)\<rparr>"

text \<open>
  A codec to evaluate examples with. It stands in for package \<^verbatim>\<open>encoding/json\<close> and
  writes of a record only the identifier and the subject, and of the list the account
  and one line per entry.
\<close>

definition readNat :: "string \<Rightarrow> nat" where
  "readNat s = foldl (\<lambda>n c. 10 * n + (of_char c - 48)) 0 s"

definition example_codec :: codec where
  "example_codec =
     \<lparr>Encode = (\<lambda>jm. Inr (showNat (unat (json_Uid jm)) @ '':'' @ json_Subject jm @ [CHR 0x0A])),
      Unmarshal = (\<lambda>b.
        let ds = takeWhile (\<lambda>c. c \<noteq> CHR '':'') b
        in if ds = [] \<or> length ds = length b then Inl (Err ''invalid character'')
           else Inr \<lparr>json_Uid = of_nat (readNat ds), json_MessageID = [],
                  json_Subject = drop (Suc (length ds)) b, json_From = [],
                  json_Date = \<lparr>tm_year = 1, tm_month = 1, tm_day = 1\<rparr>, json_Attachments = [],
                  json_MimeType = [], json_MultipartMimeType = [],
                  json_AttachmentMimeType = []\<rparr>),
      MarshalIndent = (\<lambda>ml. Inr (Email ml @ concat (map (\<lambda>jm. CHR 0x0A # showNat (unat (json_Uid jm))
                          @ '':'' @ json_Subject jm) (List ml))))\<rparr>"

text \<open>A mail with an identifier and a subject only, and an index for \<open>user\<close>.\<close>

definition bare_mail :: "32 word \<Rightarrow> string \<Rightarrow> mail" where
  "bare_mail uid subject = new_mail\<lparr>Uid := uid, Subject := subject\<rparr>"

definition example_index :: mailList where
  "example_index = \<lparr>Email = ''user'', List = [], Vendor = ''imap'', Server = ''imap.b.com'',
     path = ''mail/user/data.json''\<rparr>"

text \<open>
  A file system that holds an earlier document of the index, and the same where every
  rename fails.
\<close>

definition old_fs :: filesys where
  "old_fs = empty_fs\<lparr>files := [''mail/user/data.json'' \<mapsto> ''old document'']\<rparr>"

definition norename_fs :: filesys where
  "norename_fs = old_fs\<lparr>Rename_err := (\<lambda>oldpath newpath. Some (Err ''rename: permission denied''))\<rparr>"

text \<open>
  The conversion of addMail, from the mail to JSON text and back to a record, gives the
  record toJson built: what \<^verbatim>\<open>encoding/json\<close> does for text that is valid UTF-8 and a
  date it can write.
\<close>

definition roundtrip :: "codec \<Rightarrow> mail \<Rightarrow> bool" where
  "roundtrip J m =
     (case toJson J m of Inl e \<Rightarrow> False | Inr jsonData \<Rightarrow> Unmarshal J jsonData = Inr (toJsonMail m))"

text \<open>The list and the file system that addMail leaves.\<close>

definition index_after :: "err option \<times> mailList \<times> filesys \<Rightarrow> mailList" where
  "index_after res = fst (snd res)"

definition files_after :: "err option \<times> mailList \<times> filesys \<Rightarrow> filesys" where
  "files_after res = snd (snd res)"

text \<open>A file system on which no directory creation, write or rename fails.\<close>

definition no_faults :: "filesys \<Rightarrow> bool" where
  "no_faults fs =
     ((\<forall>dir. MkdirAll_err fs dir = None) \<and> (\<forall>name data. WriteFile_err fs name data = None)
      \<and> (\<forall>oldpath newpath. Rename_err fs oldpath newpath = None))"

text \<open>
  The inline bodies the multipart branch of the text handler takes for plain text, and
  those it takes for HTML: the type sniffed from the body, without its parameters.
\<close>

definition isPlain :: "detector \<Rightarrow> bytes \<Rightarrow> bool" where
  "isPlain D body = (mimeType (mime_String (D body)) = ''text/plain'')"

definition isHtml :: "detector \<Rightarrow> bytes \<Rightarrow> bool" where
  "isHtml D body = (mimeType (mime_String (D body)) = ''text/html'')"

text \<open>
  The files after the multipart branch when no write fails: the text file holds the last
  plain body, the HTML file the last HTML body, every other file is as before.
\<close>

definition last_written ::
  "detector \<Rightarrow> string \<Rightarrow> string \<Rightarrow> bytes list \<Rightarrow> (string \<rightharpoonup> bytes) \<Rightarrow> (string \<rightharpoonup> bytes)" where
  "last_written D dir base bodies f =
     (\<lambda>p. if p = txtName dir base \<and> filter (isPlain D) bodies \<noteq> [] then Some (last (filter (isPlain D) bodies))
          else if p = htmlName dir base \<and> filter (isHtml D) bodies \<noteq> [] then Some (last (filter (isHtml D) bodies))
          else f p)"

text \<open>A mail with two plain bodies and one of HTML, and one of a multipart type the handler does not list.\<close>

definition multipart_mail :: mail where
  "multipart_mail = example_mail\<lparr>MimeType := ''multipart/alternative'',
     Body := [''first'', ''<html><p>x</p></html>'', ''%PDF-1.4'', ''second'']\<rparr>"

definition related_mail :: mail where
  "related_mail = example_mail\<lparr>MimeType := ''multipart/related''\<rparr>"

section \<open>Properties\<close>

subsection \<open>The loop of fetchBody\<close>

lemma showNat_nonempty: "showNat n \<noteq> []"
  by (subst showNat.simps) simp

lemma fetchBody_loop_append:
  "fetchBody_loop D uid e (pre @ post) st =
     (case fetchBody_parts D uid pre st of
        Inl er \<Rightarrow> Inl er
      | Inr st' \<Rightarrow> fetchBody_loop D uid e post st')"
  by (induction pre arbitrary: st) (auto split: sum.splits)

lemma fetchBody_loop_parts:
  "fetchBody_loop D uid e ps st = Inr x \<Longrightarrow> \<exists>st'. fetchBody_parts D uid ps st = Inr st'"
  by (induction ps arbitrary: st) (auto split: sum.splits)

lemma skip_truncated_inline:
  "fetchBody_loop D uid e (pre @ InlinePart (Inl ErrUnexpectedEOF) # post) st =
   fetchBody_loop D uid e (pre @ post) st"
  by (cases st) (auto simp: fetchBody_loop_append split: sum.splits prod.splits)

lemma inline_error_propagates:
  assumes "fetchBody_loop D uid EOF pre st = Inr x" and "er \<noteq> ErrUnexpectedEOF"
  shows "fetchBody_loop D uid e (pre @ InlinePart (Inl er) # post) st = Inl er"
proof -
  obtain st' where "fetchBody_parts D uid pre st = Inr st'"
    using fetchBody_loop_parts [OF assms(1)] by blast
  then show ?thesis using assms(2)
    by (cases st') (simp add: fetchBody_loop_append)
qed

lemma attachment_error_propagates:
  assumes "fetchBody_loop D uid EOF pre st = Inr x"
  shows "fetchBody_loop D uid e (pre @ AttachmentPart (Inr fn) (Inl er) # post) st = Inl er"
proof -
  obtain st' where "fetchBody_parts D uid pre st = Inr st'"
    using fetchBody_loop_parts [OF assms(1)] by blast
  then show ?thesis
    by (cases st') (simp add: fetchBody_loop_append)
qed

text \<open>The error field of a parsed mail is what the loop of fetchBody returned.\<close>

lemma Error_parseMail:
  "Error (parseMail D m r) =
     (case fetchBody_loop D (Uid m) (NextPart_err r) (parts r) ([], [], CreateCounter) of
        Inl er \<Rightarrow> Some er
      | Inr x \<Rightarrow> None)"
  by (auto simp: parseMail_def fetchBody_def Let_def split: sum.splits prod.splits)

lemma sniff_loop_eq:
  "sniff_loop D bodies acc = acc @ map (\<lambda>b. mime_String (D b)) (filter (\<lambda>b. b \<noteq> []) bodies)"
  by (induction bodies arbitrary: acc) auto

lemma fetchBody_part_inv:
  assumes "fetchBody_part D uid p (b, a, c) = Inr (b', a', c')"
  shows "b' = b @ inline_bodies [p]
       \<and> a' = a @ stored D uid c (attachment_parts [p])
       \<and> c' = c + length (filter (\<lambda>(filename, body). filename = []) (attachment_parts [p]))
       \<and> length (inline_bodies [p]) + length (filter isTruncated [p]) = length (filter isInline [p])
       \<and> length (attachment_parts [p]) = length (filter isAttachment [p])"
proof (cases p)
  case (InlinePart rd)
  then show ?thesis using assms
    by (cases rd) (auto simp: isTruncated_def split: if_splits)
next
  case (AttachmentPart fn rd)
  then show ?thesis using assms
    by (cases fn; cases rd) (auto simp: isTruncated_def Next_def Let_def split: if_splits)
qed

lemma inline_bodies_Cons: "inline_bodies (p # ps) = inline_bodies [p] @ inline_bodies ps"
  by (cases "(p # ps)" rule: inline_bodies.cases) auto

lemma attachment_parts_Cons: "attachment_parts (p # ps) = attachment_parts [p] @ attachment_parts ps"
  by (cases "(p # ps)" rule: attachment_parts.cases) auto

lemma stored_append:
  "stored D uid c (xs @ ys) =
     stored D uid c xs @ stored D uid (c + length (filter (\<lambda>(filename, body). filename = []) xs)) ys"
  by (induction xs arbitrary: c) auto

lemma fetchBody_parts_inv:
  "fetchBody_parts D uid ps (b, a, c) = Inr (b', a', c') \<Longrightarrow>
     b' = b @ inline_bodies ps
   \<and> a' = a @ stored D uid c (attachment_parts ps)
   \<and> length (inline_bodies ps) + length (filter isTruncated ps) = length (filter isInline ps)
   \<and> length (attachment_parts ps) = length (filter isAttachment ps)"
proof (induction ps arbitrary: b a c)
  case Nil
  then show ?case by simp
next
  case (Cons p ps)
  from Cons.prems obtain b1 a1 c1 where
    step: "fetchBody_part D uid p (b, a, c) = Inr (b1, a1, c1)"
    and rest: "fetchBody_parts D uid ps (b1, a1, c1) = Inr (b', a', c')"
    by (auto split: sum.splits)
  note s = fetchBody_part_inv [OF step]
  note r = Cons.IH [OF rest]
  have "b' = b @ inline_bodies (p # ps)"
    using s r by (simp add: inline_bodies_Cons [of p ps])
  moreover have "a' = a @ stored D uid c (attachment_parts (p # ps))"
    using s r by (simp add: attachment_parts_Cons [of p ps] stored_append)
  moreover have "length (inline_bodies (p # ps)) + length (filter isTruncated (p # ps))
      = length (filter isInline (p # ps))"
    using s r by (auto simp: inline_bodies_Cons [of p ps] split: if_splits)
  moreover have "length (attachment_parts (p # ps)) = length (filter isAttachment (p # ps))"
    using s r by (auto simp: attachment_parts_Cons [of p ps] split: if_splits)
  ultimately show ?case by blast
qed

lemma fetchBody_loop_Inr:
  "fetchBody_loop D uid e ps st = Inr (b', a') \<Longrightarrow> \<exists>c'. fetchBody_parts D uid ps st = Inr (b', a', c')"
  by (induction ps arbitrary: st) (auto split: sum.splits if_splits)

lemma parseMail_ok:
  assumes "Error (parseMail D m r) = None"
  shows "\<exists>c. fetchBody_parts D (Uid m) (parts r) ([], [], CreateCounter)
             = Inr (Body (parseMail D m r), Attachments (parseMail D m r), c)"
proof -
  from assms obtain b a where
    l: "fetchBody_loop D (Uid m) (NextPart_err r) (parts r) ([], [], CreateCounter) = Inr (b, a)"
    by (auto simp: Error_parseMail split: sum.splits)
  then have "Body (parseMail D m r) = b" "Attachments (parseMail D m r) = a"
    by (auto simp: parseMail_def fetchBody_def Let_def split: sum.splits)
  then show ?thesis using fetchBody_loop_Inr [OF l] by simp
qed

lemma parseMail_failed:
  assumes "Error (parseMail D m r) \<noteq> None"
  shows "Body (parseMail D m r) = Body m \<and> Attachments (parseMail D m r) = Attachments m"
  using assms
  by (auto simp: parseMail_def fetchBody_def Let_def split: sum.splits prod.splits)

lemma parseMail_types:
  "MultipartMimeType (parseMail D m r)
     = map (\<lambda>b. mime_String (D b)) (filter (\<lambda>b. b \<noteq> []) (Body (parseMail D m r)))
   \<and> AttachmentMimeType (parseMail D m r)
     = map (\<lambda>b. mime_String (D b)) (filter (\<lambda>b. b \<noteq> []) (map att_Body (Attachments (parseMail D m r))))"
  by (auto simp: parseMail_def fetchBody_def Let_def sniff_loop_eq split: sum.splits prod.splits)

subsection \<open>Sanitized and synthesized attachment names\<close>

lemma slash_free: "CHR ''/'' \<notin> set (ReplaceAllSlash s)"
  by (auto simp: ReplaceAllSlash_def)

lemma ReplaceAllSlash_id: "CHR ''/'' \<notin> set s \<Longrightarrow> ReplaceAllSlash s = s"
  by (induction s) (auto simp: ReplaceAllSlash_def)

lemma MapKeep_ascii:
  "\<forall>c \<in> set s. byte c < 0x80 \<Longrightarrow> MapKeep (\<lambda>r. r \<noteq> RuneError) s = s"
proof (induction s)
  case Nil
  then show ?case by (simp add: MapKeep.simps)
next
  case (Cons c s)
  then have "byte c < 0x80" by simp
  then have "DecodeRune (c # s) = (byte c, 1)" by (simp add: Let_def)
  moreover have "byte c \<noteq> RuneError" using \<open>byte c < 0x80\<close> by (simp add: RuneError_def)
  ultimately show ?case using Cons by (simp add: MapKeep.simps(2) encodeKept_def)
qed

lemma fixUtf_ascii: "\<forall>c \<in> set s. byte c < 0x80 \<Longrightarrow> fixUtf s = s"
  by (simp add: fixUtf_def MapKeep_ascii)

lemma sanitize_clean: "clean s \<Longrightarrow> ReplaceAllSlash (fixUtf s) = s"
  by (auto simp: clean_def fixUtf_ascii intro: ReplaceAllSlash_id)

lemma digit_clean: "byte (digit n) < 0x80 \<and> digit n \<noteq> CHR ''/''"
proof -
  have "digit n \<in> set ''0123456789''"
    unfolding digit_def by (rule nth_mem) simp
  then show ?thesis by (auto simp: byte_def)
qed

lemma clean_append: "clean (xs @ ys) = (clean xs \<and> clean ys)"
  by (auto simp: clean_def)

lemma clean_showNat: "clean (showNat n)"
proof (induction n rule: showNat.induct)
  case (1 n)
  show ?case
  proof (cases "n < 10")
    case True
    then show ?thesis using digit_clean [of n]
      by (subst showNat.simps) (simp add: clean_def)
  next
    case False
    then show ?thesis using 1 digit_clean [of "n mod 10"]
      by (subst showNat.simps) (simp add: clean_append, simp add: clean_def)
  qed
qed

lemma clean_synthName:
  assumes "clean ext"
  shows "clean (synthName uid (int k) ext)"
proof -
  have "\<forall>c \<in> set (showNat n). byte c < 0x80 \<and> c \<noteq> CHR ''/''" for n
    using clean_showNat [of n] by (simp add: clean_def)
  then show ?thesis using assms
    by (auto simp: synthName_def showInt_def clean_def byte_def)
qed

lemma length_stored: "length (stored D uid c xs) = length xs"
  by (induction xs arbitrary: c) auto

lemma stored_nth:
  "i < length xs \<Longrightarrow>
     stored D uid c xs ! i =
       \<lparr>Filename = ReplaceAllSlash (fixUtf
           (if fst (xs ! i) = []
            then synthName uid (int (c + ordinal xs i)) (mime_Extension (D (snd (xs ! i))))
            else fst (xs ! i))),
        att_Body = snd (xs ! i), Mimetype = mime_String (D (snd (xs ! i)))\<rparr>"
proof (induction xs arbitrary: c i)
  case Nil
  then show ?case by simp
next
  case (Cons x xs)
  obtain fn body where x: "x = (fn, body)" by (cases x)
  show ?case
  proof (cases i)
    case 0
    then show ?thesis by (simp add: x ordinal_def)
  next
    case (Suc j)
    then have j: "j < length xs" using Cons.prems by simp
    show ?thesis using Cons.IH [OF j] Suc
      by (simp add: x ordinal_def)
  qed
qed

lemma stored_slash_free: "a \<in> set (stored D uid c xs) \<Longrightarrow> CHR ''/'' \<notin> set (Filename a)"
  by (induction xs arbitrary: c) (auto simp: slash_free split: if_splits)

lemma ordinal_mono:
  assumes "i < j" and "j < length xs" and "fst (xs ! i) = []"
  shows "ordinal xs i < ordinal xs j"
proof -
  define rest where "rest = drop (Suc i) (take j xs)"
  have "take j xs = take i (take j xs) @ (take j xs ! i) # drop (Suc i) (take j xs)"
    by (rule id_take_nth_drop) (use assms(1,2) in simp)
  then have eq: "take j xs = take i xs @ (xs ! i) # rest"
    using assms(1,2) by (simp add: rest_def min_def)
  show ?thesis using assms(3)
    by (cases "xs ! i") (simp add: ordinal_def eq)
qed

subsection \<open>C9: an unexpected end of stream on an inline part and on an attachment part\<close>

text \<open>
  Claim C9. While reading an inline part, an unexpected-end-of-stream read error makes
  fetchBody skip that part: the parsed mail is the one the message without that part
  gives (no Body entry for it, no error from it). Any other read error on an inline
  part, and any read error on an attachment part, the unexpected end of stream
  included, becomes the Error of the mail. The parts before the one in question are
  parts that parse without error.
\<close>

theorem C9_unexpected_eof_asymmetry:
  assumes "Error (parseMail D m (r\<lparr>parts := pre, NextPart_err := EOF\<rparr>)) = None"
  shows "parseMail D m (r\<lparr>parts := pre @ InlinePart (Inl ErrUnexpectedEOF) # post\<rparr>)
           = parseMail D m (r\<lparr>parts := pre @ post\<rparr>)
       \<and> (er \<noteq> ErrUnexpectedEOF \<longrightarrow>
            Error (parseMail D m (r\<lparr>parts := pre @ InlinePart (Inl er) # post\<rparr>)) = Some er)
       \<and> Error (parseMail D m (r\<lparr>parts := pre @ AttachmentPart (Inr fn) (Inl ErrUnexpectedEOF) # post\<rparr>))
            = Some ErrUnexpectedEOF
       \<and> Error (parseMail D m (r\<lparr>parts := pre @ AttachmentPart (Inr fn) (Inl er) # post\<rparr>))
            = Some er"
proof -
  from assms obtain x where pre: "fetchBody_loop D (Uid m) EOF pre ([], [], CreateCounter) = Inr x"
    by (auto simp: Error_parseMail split: sum.splits)
  have skip: "parseMail D m (r\<lparr>parts := pre @ InlinePart (Inl ErrUnexpectedEOF) # post\<rparr>)
           = parseMail D m (r\<lparr>parts := pre @ post\<rparr>)"
    by (simp add: parseMail_def fetchBody_def skip_truncated_inline)
  have inl: "er \<noteq> ErrUnexpectedEOF \<Longrightarrow>
            Error (parseMail D m (r\<lparr>parts := pre @ InlinePart (Inl er) # post\<rparr>)) = Some er"
    by (simp add: Error_parseMail inline_error_propagates [OF pre])
  have att: "Error (parseMail D m (r\<lparr>parts := pre @ AttachmentPart (Inr fn) (Inl e') # post\<rparr>))
            = Some e'" for e'
    by (simp add: Error_parseMail attachment_error_propagates [OF pre])
  show ?thesis using skip inl att by blast
qed

text \<open>
  An instance: an inline part \<open>hello\<close>, then the part in question, then an inline part
  \<open>bye\<close>. The truncated inline part leaves the bodies \<open>hello\<close> and \<open>bye\<close> and no error.
\<close>

theorem C9_unexpected_eof_asymmetry_witness:
  "Error (parseMail sniff new_mail (empty_reader\<lparr>parts := [InlinePart (Inr ''hello'')], NextPart_err := EOF\<rparr>)) = None
   \<and> parseMail sniff new_mail (empty_reader\<lparr>parts := [InlinePart (Inr ''hello'')] @ InlinePart (Inl ErrUnexpectedEOF) # [InlinePart (Inr ''bye'')]\<rparr>)
       = parseMail sniff new_mail (empty_reader\<lparr>parts := [InlinePart (Inr ''hello'')] @ [InlinePart (Inr ''bye'')]\<rparr>)
   \<and> Body (parseMail sniff new_mail (empty_reader\<lparr>parts := [InlinePart (Inr ''hello'')] @ InlinePart (Inl ErrUnexpectedEOF) # [InlinePart (Inr ''bye'')]\<rparr>))
       = [''hello'', ''bye'']
   \<and> Error (parseMail sniff new_mail (empty_reader\<lparr>parts := [InlinePart (Inr ''hello'')] @ InlinePart (Inl ErrUnexpectedEOF) # [InlinePart (Inr ''bye'')]\<rparr>))
       = None
   \<and> Err ''connection reset'' \<noteq> ErrUnexpectedEOF
   \<and> Error (parseMail sniff new_mail (empty_reader\<lparr>parts := [InlinePart (Inr ''hello'')] @ InlinePart (Inl (Err ''connection reset'')) # [InlinePart (Inr ''bye'')]\<rparr>))
       = Some (Err ''connection reset'')
   \<and> Error (parseMail sniff new_mail (empty_reader\<lparr>parts := [InlinePart (Inr ''hello'')] @ AttachmentPart (Inr ''a.pdf'') (Inl ErrUnexpectedEOF) # [InlinePart (Inr ''bye'')]\<rparr>))
       = Some ErrUnexpectedEOF"
proof -
  have h: "Error (parseMail sniff new_mail (empty_reader\<lparr>parts := [InlinePart (Inr ''hello'')], NextPart_err := EOF\<rparr>)) = None"
    by (simp add: Error_parseMail empty_reader_def)
  have b: "Body (parseMail sniff new_mail (empty_reader\<lparr>parts := [InlinePart (Inr ''hello''), InlinePart (Inr ''bye'')]\<rparr>))
       = [''hello'', ''bye'']"
    by (simp add: parseMail_def fetchBody_def empty_reader_def)
  have n: "Error (parseMail sniff new_mail (empty_reader\<lparr>parts := [InlinePart (Inr ''hello''), InlinePart (Inr ''bye'')]\<rparr>))
       = None"
    by (simp add: Error_parseMail empty_reader_def)
  show ?thesis
    using h b n
      C9_unexpected_eof_asymmetry [OF h, of "[InlinePart (Inr ''bye'')]" "Err ''connection reset''" "''a.pdf''"]
    by simp
qed

subsection \<open>C5: the lengths of the Body, Attachments and type lists of a parsed mail\<close>

lemma stored_bodies: "map att_Body (stored D uid c xs) = map snd xs"
  by (induction xs arbitrary: c) auto

lemma stored_Mimetype:
  "a \<in> set (stored D uid c xs) \<Longrightarrow> Mimetype a = mime_String (D (att_Body a))"
  by (induction xs arbitrary: c) (auto split: if_splits)

lemma parseMail_stored:
  assumes "Error (parseMail D m r) = None"
  shows "Body (parseMail D m r) = inline_bodies (parts r)
       \<and> Attachments (parseMail D m r) = stored D (Uid m) CreateCounter (attachment_parts (parts r))
       \<and> length (inline_bodies (parts r)) + length (filter isTruncated (parts r))
            = length (filter isInline (parts r))
       \<and> length (attachment_parts (parts r)) = length (filter isAttachment (parts r))"
proof -
  obtain c where "fetchBody_parts D (Uid m) (parts r) ([], [], CreateCounter)
             = Inr (Body (parseMail D m r), Attachments (parseMail D m r), c)"
    using parseMail_ok [OF assms] by blast
  from fetchBody_parts_inv [OF this] show ?thesis by simp
qed

lemma example_reader_ok: "Error (parseMail sniff new_mail example_reader) = None"
  by (simp add: Error_parseMail example_reader_def empty_reader_def sniff_def Next_def CreateCounter_def)

lemma example_reader_Body: "Body (parseMail sniff new_mail example_reader) = [''hello'', []]"
  using parseMail_stored [OF example_reader_ok] by (simp add: example_reader_def empty_reader_def)

lemma example_reader_stored:
  "stored sniff 0 CreateCounter (attachment_parts (parts example_reader)) =
     [\<lparr>Filename = ''a-b.pdf'', att_Body = ''%PDF-1.4'', Mimetype = ''application/pdf''\<rparr>,
      \<lparr>Filename = ''0-1.html'', att_Body = ''<html><p>x</p></html>'', Mimetype = ''text/html; charset=utf-8''\<rparr>,
      \<lparr>Filename = ''0-2.txt'', att_Body = [], Mimetype = ''text/plain; charset=utf-8''\<rparr>]"
  by code_simp

lemma example_reader_Attachments:
  "Attachments (parseMail sniff new_mail example_reader) =
     [\<lparr>Filename = ''a-b.pdf'', att_Body = ''%PDF-1.4'', Mimetype = ''application/pdf''\<rparr>,
      \<lparr>Filename = ''0-1.html'', att_Body = ''<html><p>x</p></html>'', Mimetype = ''text/html; charset=utf-8''\<rparr>,
      \<lparr>Filename = ''0-2.txt'', att_Body = [], Mimetype = ''text/plain; charset=utf-8''\<rparr>]"
  using parseMail_stored [OF example_reader_ok] example_reader_stored by (simp add: new_mail_def)

lemma failing_reader_Error:
  "Error (parseMail sniff new_mail failing_reader) = Some (Err ''connection reset'')"
  by (simp add: Error_parseMail failing_reader_def empty_reader_def)

lemma truncated_reader_ok: "Error (parseMail sniff new_mail truncated_reader) = None"
  by (simp add: Error_parseMail truncated_reader_def empty_reader_def)

text \<open>
  Claim C5 as stated: a message with k inline parts gives a Body of length k. A message
  whose one inline part ends in an unexpected end of stream parses without error and
  has an empty Body.
\<close>

theorem C5_counterexample:
  "length (filter isInline (parts truncated_reader)) = 1
   \<and> Error (parseMail sniff new_mail truncated_reader) = None
   \<and> length (Body (parseMail sniff new_mail truncated_reader))
       \<noteq> length (filter isInline (parts truncated_reader))"
  using parseMail_stored [OF truncated_reader_ok] truncated_reader_ok
  by (simp add: truncated_reader_def empty_reader_def)

text \<open>
  Claim C5, amended. For a message with k inline parts, t of them cut by an unexpected
  end of stream, and m attachment parts: when the parse returns no error, Body holds the
  bodies of the other k - t inline parts in order, and Attachments has m entries holding
  the bodies of the attachment parts in order; when the parse returns an error, Body and
  Attachments are left as they were (empty in fetchMessages). In both cases
  MultipartMimeType is the list of the sniffed types of the non-empty Body entries, in
  order, AttachmentMimeType that of the non-empty attachments (which is also their
  Mimetype field), and neither list is longer than the list it was sniffed from.
\<close>

theorem C5_parts_and_types:
  "(Error (parseMail D m r) = None \<longrightarrow>
        Body (parseMail D m r) = inline_bodies (parts r)
      \<and> length (Body (parseMail D m r)) + length (filter isTruncated (parts r))
          = length (filter isInline (parts r))
      \<and> length (Attachments (parseMail D m r)) = length (filter isAttachment (parts r))
      \<and> map att_Body (Attachments (parseMail D m r)) = map snd (attachment_parts (parts r))
      \<and> AttachmentMimeType (parseMail D m r)
          = map Mimetype (filter (\<lambda>a. att_Body a \<noteq> []) (Attachments (parseMail D m r))))
   \<and> (Error (parseMail D m r) \<noteq> None \<longrightarrow>
        Body (parseMail D m r) = Body m \<and> Attachments (parseMail D m r) = Attachments m)
   \<and> MultipartMimeType (parseMail D m r)
       = map (\<lambda>b. mime_String (D b)) (filter (\<lambda>b. b \<noteq> []) (Body (parseMail D m r)))
   \<and> AttachmentMimeType (parseMail D m r)
       = map (\<lambda>a. mime_String (D (att_Body a)))
           (filter (\<lambda>a. att_Body a \<noteq> []) (Attachments (parseMail D m r)))
   \<and> length (MultipartMimeType (parseMail D m r)) \<le> length (Body (parseMail D m r))
   \<and> length (AttachmentMimeType (parseMail D m r)) \<le> length (Attachments (parseMail D m r))"
proof -
  let ?m = "parseMail D m r"
  have types: "MultipartMimeType ?m = map (\<lambda>b. mime_String (D b)) (filter (\<lambda>b. b \<noteq> []) (Body ?m))"
    and atypes: "AttachmentMimeType ?m
       = map (\<lambda>a. mime_String (D (att_Body a))) (filter (\<lambda>a. att_Body a \<noteq> []) (Attachments ?m))"
    using parseMail_types [of D m r] by (simp_all add: filter_map comp_def)
  have ok: "Body ?m = inline_bodies (parts r)
      \<and> length (Body ?m) + length (filter isTruncated (parts r)) = length (filter isInline (parts r))
      \<and> length (Attachments ?m) = length (filter isAttachment (parts r))
      \<and> map att_Body (Attachments ?m) = map snd (attachment_parts (parts r))
      \<and> AttachmentMimeType ?m = map Mimetype (filter (\<lambda>a. att_Body a \<noteq> []) (Attachments ?m))"
    if e: "Error ?m = None"
  proof -
    note s = parseMail_stored [OF e]
    have "map (\<lambda>a. mime_String (D (att_Body a))) (filter (\<lambda>a. att_Body a \<noteq> []) (Attachments ?m))
        = map Mimetype (filter (\<lambda>a. att_Body a \<noteq> []) (Attachments ?m))"
      using s by (auto simp: stored_Mimetype)
    then show ?thesis using s atypes by (simp add: length_stored stored_bodies)
  qed
  have failed: "Body ?m = Body m \<and> Attachments ?m = Attachments m" if "Error ?m \<noteq> None"
    using parseMail_failed [OF that] .
  have l1: "length (MultipartMimeType ?m) \<le> length (Body ?m)"
    by (simp add: types)
  have l2: "length (AttachmentMimeType ?m) \<le> length (Attachments ?m)"
    by (simp add: atypes)
  show ?thesis using types atypes ok failed l1 l2 by blast
qed

text \<open>
  Two instances: \<open>example_reader\<close> parses without error (three inline parts, one of them
  truncated and one empty; three attachments, one empty); \<open>failing_reader\<close> does not.
\<close>

theorem C5_parts_and_types_witness:
  "Error (parseMail sniff new_mail example_reader) = None
   \<and> Body (parseMail sniff new_mail example_reader) = [''hello'', []]
   \<and> length (filter isInline (parts example_reader)) = 3
   \<and> length (filter isTruncated (parts example_reader)) = 1
   \<and> length (Attachments (parseMail sniff new_mail example_reader)) = 3
   \<and> MultipartMimeType (parseMail sniff new_mail example_reader) = [''text/plain; charset=utf-8'']
   \<and> AttachmentMimeType (parseMail sniff new_mail example_reader)
       = [''application/pdf'', ''text/html; charset=utf-8'']
   \<and> Error (parseMail sniff new_mail failing_reader) \<noteq> None
   \<and> Body (parseMail sniff new_mail failing_reader) = []
   \<and> Attachments (parseMail sniff new_mail failing_reader) = []"
proof -
  have b: "length (filter isInline (parts example_reader)) = 3
     \<and> length (filter isTruncated (parts example_reader)) = 1
     \<and> length (filter isAttachment (parts example_reader)) = 3"
    by (simp add: example_reader_def empty_reader_def isTruncated_def)
  show ?thesis
    using C5_parts_and_types [of sniff new_mail example_reader]
      C5_parts_and_types [of sniff new_mail failing_reader]
      example_reader_ok example_reader_Body failing_reader_Error example_reader_Attachments b
    by (simp add: sniff_def new_mail_def)
qed

subsection \<open>C6: the stored filename of an attachment\<close>

text \<open>
  Claim C6. In a mail parsed without error, no stored Filename contains a slash. The
  attachment at index \<open>i\<close> holds the body of the i-th attachment part and the type
  sniffed from it. Its Filename is the declared one, or, when none was declared, the
  name \<^verbatim>\<open><Uid>-<ordinal><extension>\<close> with the extension sniffed from the same body,
  in both cases passed through fixUtf and the replacement of slashes; for an extension
  of ASCII bytes without a slash the stored name is exactly
  \<^verbatim>\<open><Uid>-<ordinal><extension>\<close>. The ordinal counts the attachments without a declared
  name of this message from 1, so it grows strictly from one such attachment to the next.
\<close>

theorem C6_attachment_filenames:
  assumes "Error (parseMail D m r) = None"
  shows "(\<forall>a \<in> set (Attachments (parseMail D m r)). CHR ''/'' \<notin> set (Filename a))
       \<and> length (Attachments (parseMail D m r)) = length (attachment_parts (parts r))
       \<and> (\<forall>i < length (attachment_parts (parts r)).
             att_Body (Attachments (parseMail D m r) ! i) = snd (attachment_parts (parts r) ! i)
           \<and> Mimetype (Attachments (parseMail D m r) ! i)
               = mime_String (D (snd (attachment_parts (parts r) ! i)))
           \<and> (fst (attachment_parts (parts r) ! i) \<noteq> [] \<longrightarrow>
                Filename (Attachments (parseMail D m r) ! i)
                  = ReplaceAllSlash (fixUtf (fst (attachment_parts (parts r) ! i))))
           \<and> (fst (attachment_parts (parts r) ! i) = [] \<longrightarrow>
                Filename (Attachments (parseMail D m r) ! i)
                  = ReplaceAllSlash (fixUtf (synthName (Uid m)
                      (int (ordinal (attachment_parts (parts r)) i))
                      (mime_Extension (D (snd (attachment_parts (parts r) ! i)))))))
           \<and> (fst (attachment_parts (parts r) ! i) = []
                \<and> clean (mime_Extension (D (snd (attachment_parts (parts r) ! i)))) \<longrightarrow>
                Filename (Attachments (parseMail D m r) ! i)
                  = showNat (unat (Uid m)) @ ''-''
                      @ showNat (ordinal (attachment_parts (parts r)) i)
                      @ mime_Extension (D (snd (attachment_parts (parts r) ! i)))))
       \<and> (\<forall>i j. i < j \<and> j < length (attachment_parts (parts r))
               \<and> fst (attachment_parts (parts r) ! i) = [] \<longrightarrow>
             ordinal (attachment_parts (parts r)) i < ordinal (attachment_parts (parts r)) j)
       \<and> (\<forall>i. filter (\<lambda>(filename, body). filename = []) (take i (attachment_parts (parts r))) = [] \<longrightarrow>
             ordinal (attachment_parts (parts r)) i = 1)"
proof -
  let ?xs = "attachment_parts (parts r)"
  let ?as = "Attachments (parseMail D m r)"
  have as: "?as = stored D (Uid m) CreateCounter ?xs"
    using parseMail_stored [OF assms] by simp
  have slash: "\<forall>a \<in> set ?as. CHR ''/'' \<notin> set (Filename a)"
    using as stored_slash_free by auto
  have len: "length ?as = length ?xs"
    by (simp add: as length_stored)
  have nth: "?as ! i =
       \<lparr>Filename = ReplaceAllSlash (fixUtf
           (if fst (?xs ! i) = []
            then synthName (Uid m) (int (ordinal ?xs i)) (mime_Extension (D (snd (?xs ! i))))
            else fst (?xs ! i))),
        att_Body = snd (?xs ! i), Mimetype = mime_String (D (snd (?xs ! i)))\<rparr>"
    if "i < length ?xs" for i
    using stored_nth [OF that, of D "Uid m" CreateCounter] by (simp add: as CreateCounter_def)
  have exact: "Filename (?as ! i)
       = showNat (unat (Uid m)) @ ''-'' @ showNat (ordinal ?xs i) @ mime_Extension (D (snd (?xs ! i)))"
    if "i < length ?xs" and "fst (?xs ! i) = []" and "clean (mime_Extension (D (snd (?xs ! i))))" for i
    using nth [OF that(1)] that(2) sanitize_clean [OF clean_synthName [OF that(3)]]
    by (simp add: synthName_def showInt_def)
  have each: "\<forall>i < length ?xs.
             att_Body (?as ! i) = snd (?xs ! i)
           \<and> Mimetype (?as ! i) = mime_String (D (snd (?xs ! i)))
           \<and> (fst (?xs ! i) \<noteq> [] \<longrightarrow> Filename (?as ! i) = ReplaceAllSlash (fixUtf (fst (?xs ! i))))
           \<and> (fst (?xs ! i) = [] \<longrightarrow>
                Filename (?as ! i)
                  = ReplaceAllSlash (fixUtf (synthName (Uid m) (int (ordinal ?xs i))
                      (mime_Extension (D (snd (?xs ! i)))))))
           \<and> (fst (?xs ! i) = [] \<and> clean (mime_Extension (D (snd (?xs ! i)))) \<longrightarrow>
                Filename (?as ! i)
                  = showNat (unat (Uid m)) @ ''-'' @ showNat (ordinal ?xs i)
                      @ mime_Extension (D (snd (?xs ! i))))"
    using nth exact by simp
  have mono: "\<forall>i j. i < j \<and> j < length ?xs \<and> fst (?xs ! i) = [] \<longrightarrow> ordinal ?xs i < ordinal ?xs j"
    using ordinal_mono by blast
  have first: "\<forall>i. filter (\<lambda>(filename, body). filename = []) (take i ?xs) = [] \<longrightarrow> ordinal ?xs i = 1"
    by (simp add: ordinal_def)
  show ?thesis using slash len each mono first by blast
qed

text \<open>
  An instance: the three attachments of \<open>example_reader\<close>. The declared name \<open>a/b.pdf\<close> is
  stored as \<open>a-b.pdf\<close>; the two attachments without a name get the ordinals 1 and 2.
\<close>

theorem C6_attachment_filenames_witness:
  "Error (parseMail sniff new_mail example_reader) = None
   \<and> map Filename (Attachments (parseMail sniff new_mail example_reader))
       = [''a-b.pdf'', ''0-1.html'', ''0-2.txt'']
   \<and> attachment_parts (parts example_reader)
       = [(''a/b.pdf'', ''%PDF-1.4''), ([], ''<html><p>x</p></html>''), ([], [])]
   \<and> clean ''.html''
   \<and> ordinal (attachment_parts (parts example_reader)) 1 = 1
   \<and> ordinal (attachment_parts (parts example_reader)) 2 = 2
   \<and> CHR ''/'' \<notin> set (Filename (Attachments (parseMail sniff new_mail example_reader) ! 0))
   \<and> Filename (Attachments (parseMail sniff new_mail example_reader) ! 1)
       = showNat (unat (Uid new_mail)) @ ''-'' @ showNat 1 @ ''.html''"
proof -
  have xs: "attachment_parts (parts example_reader)
       = [(''a/b.pdf'', ''%PDF-1.4''), ([], ''<html><p>x</p></html>''), ([], [])]"
    by (simp add: example_reader_def empty_reader_def)
  have cl: "clean ''.html''"
    by (simp add: clean_def byte_def)
  have o: "ordinal (attachment_parts (parts example_reader)) 1 = 1
         \<and> ordinal (attachment_parts (parts example_reader)) 2 = 2"
    by (simp add: xs ordinal_def)
  have names: "map Filename (Attachments (parseMail sniff new_mail example_reader))
       = [''a-b.pdf'', ''0-1.html'', ''0-2.txt'']"
    by (simp add: example_reader_Attachments)
  have s: "showNat (unat (Uid new_mail)) @ ''-'' @ showNat 1 @ ''.html'' = ''0-1.html''"
    by (simp add: new_mail_def showNat.simps digit_def)
  show ?thesis
    using C6_attachment_filenames [OF example_reader_ok] example_reader_ok xs cl o names s
    by (simp add: example_reader_Attachments)
qed

subsection \<open>The loop of fetchMessages\<close>

lemma fetchMessage_well_formed:
  "well_formed msg \<Longrightarrow> \<exists>m. fetchMessage D msg = Continue m \<and> Uid m = msg_Uid msg"
  by (auto simp: well_formed_def fetchMessage_def fetchMeta_def closeReader_def parseMail_def
      fetchBody_def Let_def
      split: option.splits created.splits sum.splits prod.splits elim!: closes_ok.elims)

lemma fetchMessage_not_well_formed:
  "\<not> well_formed msg \<Longrightarrow> \<exists>sent out. fetchMessage D msg = Stop sent out \<and> out \<noteq> Return None"
  by (auto simp: well_formed_def fetchMessage_def fetchMeta_def closeReader_def Let_def
      split: option.splits created.splits sum.splits prod.splits elim!: closes_ok.elims)

lemma fetchMessages_loop_all:
  "\<forall>msg \<in> set msgs. well_formed msg \<Longrightarrow>
     \<exists>ms. fetchMessages_loop D msgs = (ms, Return None) \<and> map Uid ms = map msg_Uid msgs"
proof (induction msgs)
  case Nil
  then show ?case by simp
next
  case (Cons msg msgs)
  then obtain m where m: "fetchMessage D msg = Continue m" "Uid m = msg_Uid msg"
    using fetchMessage_well_formed [of msg D] by auto
  from Cons obtain ms where "fetchMessages_loop D msgs = (ms, Return None)"
    "map Uid ms = map msg_Uid msgs" by auto
  then show ?case using m by simp
qed

lemma fetchMessages_loop_some:
  "\<not> (\<forall>msg \<in> set msgs. well_formed msg) \<Longrightarrow>
     snd (fetchMessages_loop D msgs) \<noteq> Return None
     \<and> length (fst (fetchMessages_loop D msgs)) \<le> length msgs"
proof (induction msgs)
  case Nil
  then show ?case by simp
next
  case (Cons msg msgs)
  show ?case
  proof (cases "well_formed msg")
    case True
    then obtain m where m: "fetchMessage D msg = Continue m"
      using fetchMessage_well_formed [of msg D] by auto
    from True Cons.prems have "\<not> (\<forall>msg \<in> set msgs. well_formed msg)" by simp
    from Cons.IH [OF this] show ?thesis using m
      by (simp add: split_beta)
  next
    case False
    then obtain sent out where "fetchMessage D msg = Stop sent out" "out \<noteq> Return None"
      using fetchMessage_not_well_formed [of msg D] by auto
    then show ?thesis by (simp split: option.splits)
  qed
qed

lemma fetchMessage_Stop: "fetchMessage D msg = Stop sent out \<Longrightarrow> out \<noteq> Return None"
  by (cases "well_formed msg")
     (use fetchMessage_well_formed [of msg D] fetchMessage_not_well_formed [of msg D] in auto)

lemma fetchMessages_loop_append:
  "fetchMessages_loop D pre = (ms, Return None) \<Longrightarrow>
     fetchMessages_loop D (pre @ rest)
       = (ms @ fst (fetchMessages_loop D rest), snd (fetchMessages_loop D rest))"
proof (induction pre arbitrary: ms)
  case Nil
  then show ?case by simp
next
  case (Cons msg pre)
  show ?case
  proof (cases "fetchMessage D msg")
    case (Continue m)
    obtain ms' out' where l: "fetchMessages_loop D pre = (ms', out')"
      by (cases "fetchMessages_loop D pre")
    with Cons.prems Continue have ms': "out' = Return None" "ms = m # ms'"
      by simp_all
    from Cons.IH [of ms'] l ms' show ?thesis using Continue by simp
  next
    case (Stop sent out)
    with Cons.prems fetchMessage_Stop [OF Stop] show ?thesis by simp
  qed
qed

lemma producer_closed:
  "fetchMessages_loop D (fst (UidFetch C seqset)) = (ms, Return None) \<Longrightarrow>
     producer D C seqset = (map Send ms @ [CloseChan], Return None)"
  by (simp add: producer_def fetchMessages_def)

lemma producer_not_closed:
  "snd (fetchMessages_loop D (fst (UidFetch C seqset))) \<noteq> Return None \<Longrightarrow>
     fst (producer D C seqset) = map Send (fst (fetchMessages_loop D (fst (UidFetch C seqset))))
     \<and> snd (producer D C seqset) \<noteq> Return None"
  by (cases "fetchMessages_loop D (fst (UidFetch C seqset))")
     (auto simp: producer_def fetchMessages_def split: outcome.splits option.splits)

lemma example_message_mail: "fetchMessage sniff example_message = Continue example_mail"
  by (simp add: fetchMessage_def fetchMeta_def example_message_def example_envelope_def
      plain_reader_def new_mail_def parseMail_def fetchBody_def closeReader_def sniff_def
      example_mail_def CreateCounter_def)

lemma well_formed_examples:
  "well_formed example_message \<and> well_formed unparsable_message \<and> \<not> well_formed noreader_message
   \<and> well_formed nofrom_message"
  by (simp add: well_formed_def example_message_def unparsable_message_def noreader_message_def
      nofrom_message_def plain_reader_def)

lemma noreader_message_stops:
  "fetchMessage sniff noreader_message = Stop None (Return (Some (Err ''no reader'')))"
  by (simp add: fetchMessage_def fetchMeta_def noreader_message_def example_message_def)

subsection \<open>C2: one mail per message, then the channel is closed\<close>

text \<open>
  Claim C2 as stated: for N requested identifiers the pipeline emits N mails and closes
  the channel. The source is asked for the identifiers 7 and 8 and delivers a message
  for each; the second has no body section. One mail is sent, the producer ends in
  \<^verbatim>\<open>log.Fatal\<close>, and the channel is never closed.
\<close>

theorem C2_counterexample:
  "map msg_Uid (fst (UidFetch (source [example_message, noreader_message]) [7, 8])) = [7, 8]
   \<and> producer sniff (source [example_message, noreader_message]) [7, 8]
       = ([Send example_mail], LogFatal (Err ''no reader''))
   \<and> length (filter isSend (fst (producer sniff (source [example_message, noreader_message]) [7, 8])))
       \<noteq> length [7 :: 32 word, 8]
   \<and> CloseChan \<notin> set (fst (producer sniff (source [example_message, noreader_message]) [7, 8]))"
proof -
  have u: "map msg_Uid (fst (UidFetch (source [example_message, noreader_message]) [7, 8])) = [7, 8]"
    by (simp add: source_def noreader_message_def example_message_def)
  have p: "producer sniff (source [example_message, noreader_message]) [7, 8]
       = ([Send example_mail], LogFatal (Err ''no reader''))"
    by (simp add: producer_def fetchMessages_def source_def example_message_mail noreader_message_stops)
  show ?thesis using u by (simp add: p)
qed

text \<open>
  Claim C2, amended. When every message the source delivers has an envelope and a body
  section, and its mail reader closes without error, the producer sends exactly one
  mail per delivered message, in the order of delivery and with the identifier of the
  message, and then closes the channel, once; so for a source that delivers one message
  per requested identifier, N identifiers give N mails. When some delivered message is
  not of that kind, the producer ends in \<^verbatim>\<open>log.Fatal\<close> or a panic, the channel is not
  closed, and at most one mail per delivered message was sent.
\<close>

theorem C2_one_mail_per_message:
  "((\<forall>msg \<in> set (fst (UidFetch C seqset)). well_formed msg) \<longrightarrow>
      (\<exists>ms. producer D C seqset = (map Send ms @ [CloseChan], Return None)
          \<and> map Uid ms = map msg_Uid (fst (UidFetch C seqset))
          \<and> filter (\<lambda>e. \<not> isSend e) (fst (producer D C seqset)) = [CloseChan]
          \<and> (length (fst (UidFetch C seqset)) = length seqset \<longrightarrow> length ms = length seqset)))
   \<and> (\<not> (\<forall>msg \<in> set (fst (UidFetch C seqset)). well_formed msg) \<longrightarrow>
        CloseChan \<notin> set (fst (producer D C seqset))
      \<and> snd (producer D C seqset) \<noteq> Return None
      \<and> length (fst (producer D C seqset)) \<le> length (fst (UidFetch C seqset)))"
proof -
  let ?msgs = "fst (UidFetch C seqset)"
  have good: "\<exists>ms. producer D C seqset = (map Send ms @ [CloseChan], Return None)
          \<and> map Uid ms = map msg_Uid ?msgs
          \<and> filter (\<lambda>e. \<not> isSend e) (fst (producer D C seqset)) = [CloseChan]
          \<and> (length ?msgs = length seqset \<longrightarrow> length ms = length seqset)"
    if "\<forall>msg \<in> set ?msgs. well_formed msg"
  proof -
    from fetchMessages_loop_all [OF that, of D] obtain ms where
      ms: "fetchMessages_loop D ?msgs = (ms, Return None)" "map Uid ms = map msg_Uid ?msgs"
      by blast
    have len: "length ms = length ?msgs"
      using ms(2) by (metis length_map)
    have p: "producer D C seqset = (map Send ms @ [CloseChan], Return None)"
      using producer_closed [OF ms(1)] .
    have "filter (\<lambda>e. \<not> isSend e) (map Send ms @ [CloseChan]) = [CloseChan]"
      by (simp add: filter_map comp_def)
    then show ?thesis using p ms(2) len by auto
  qed
  have bad: "CloseChan \<notin> set (fst (producer D C seqset))
      \<and> snd (producer D C seqset) \<noteq> Return None
      \<and> length (fst (producer D C seqset)) \<le> length ?msgs"
    if "\<not> (\<forall>msg \<in> set ?msgs. well_formed msg)"
  proof -
    note l = fetchMessages_loop_some [OF that, of D]
    from producer_not_closed [of D C seqset] l show ?thesis by auto
  qed
  show ?thesis using good bad by blast
qed

text \<open>
  Two instances: a source that delivers a plain message and one that CreateReader
  rejects (two mails, then the close), and the source of the counterexample.
\<close>

theorem C2_one_mail_per_message_witness:
  "(well_formed example_message \<and> well_formed unparsable_message)
   \<and> length (fst (UidFetch (source [example_message, unparsable_message]) [7, 9])) = length [7 :: 32 word, 9]
   \<and> length (filter isSend (fst (producer sniff (source [example_message, unparsable_message]) [7, 9]))) = 2
   \<and> filter (\<lambda>e. \<not> isSend e) (fst (producer sniff (source [example_message, unparsable_message]) [7, 9]))
       = [CloseChan]
   \<and> last (fst (producer sniff (source [example_message, unparsable_message]) [7, 9])) = CloseChan
   \<and> snd (producer sniff (source [example_message, unparsable_message]) [7, 9]) = Return None
   \<and> \<not> well_formed noreader_message
   \<and> CloseChan \<notin> set (fst (producer sniff (source [example_message, noreader_message]) [7, 8]))
   \<and> snd (producer sniff (source [example_message, noreader_message]) [7, 8]) \<noteq> Return None"
proof -
  have s: "fst (UidFetch (source msgs) seqset) = msgs" for msgs seqset
    by (simp add: source_def)
  have g: "\<forall>msg \<in> set (fst (UidFetch (source [example_message, unparsable_message]) [7, 9])). well_formed msg"
    using well_formed_examples by (simp add: s)
  have b: "\<not> (\<forall>msg \<in> set (fst (UidFetch (source [example_message, noreader_message]) [7, 8])). well_formed msg)"
    using well_formed_examples by (simp add: s)
  have "\<exists>ms. producer sniff (source [example_message, unparsable_message]) [7, 9]
            = (map Send ms @ [CloseChan], Return None)
          \<and> map Uid ms = map msg_Uid [example_message, unparsable_message]
          \<and> filter (\<lambda>e. \<not> isSend e)
               (fst (producer sniff (source [example_message, unparsable_message]) [7, 9])) = [CloseChan]"
    using C2_one_mail_per_message [of "source [example_message, unparsable_message]" "[7, 9]" sniff] g
    by (auto simp: s)
  then obtain ms where ms:
    "producer sniff (source [example_message, unparsable_message]) [7, 9] = (map Send ms @ [CloseChan], Return None)"
    "map Uid ms = map msg_Uid [example_message, unparsable_message]"
    "filter (\<lambda>e. \<not> isSend e) (fst (producer sniff (source [example_message, unparsable_message]) [7, 9])) = [CloseChan]"
    by blast
  have "length (map Uid ms) = 2" by (simp add: ms(2))
  then have "length ms = 2" by simp
  then have "length (filter isSend (map Send ms @ [CloseChan])) = 2"
    by (simp add: filter_map comp_def)
  then show ?thesis
    using ms C2_one_mail_per_message [of "source [example_message, noreader_message]" "[7, 8]" sniff] b
      well_formed_examples
    by (simp add: s)
qed

subsection \<open>C7: a mail without a sender and the directory name\<close>

lemma parseMail_meta:
  "Uid (parseMail D m r) = Uid m \<and> From (parseMail D m r) = From m
   \<and> Subject (parseMail D m r) = Subject m \<and> Date (parseMail D m r) = Date m"
  by (auto simp: parseMail_def fetchBody_def Let_def split: sum.splits prod.splits)

lemma closeReader_sent: "sent_mail (closeReader mr m) = Some m"
  by (simp add: closeReader_def sent_mail_def split: option.splits)

lemma fetchMessage_From:
  assumes "sent_mail (fetchMessage D msg) = Some m"
  shows "\<exists>env. Envelope msg = Some env \<and> From m = env_From env"
proof (cases "Envelope msg")
  case None
  then show ?thesis using assms
    by (simp add: fetchMessage_def fetchMeta_def sent_mail_def)
next
  case (Some env)
  show ?thesis
  proof (cases "GetBody msg")
    case None
    then show ?thesis using assms Some
      by (simp add: fetchMessage_def fetchMeta_def sent_mail_def)
  next
    case (Some c)
    then show ?thesis using assms \<open>Envelope msg = Some env\<close>
      by (cases c)
         (auto simp: fetchMessage_def fetchMeta_def closeReader_sent parseMail_meta Let_def
            split: option.splits)
  qed
qed

lemma nofrom_message_mail:
  "fetchMessage sniff nofrom_message = Continue (example_mail\<lparr>From := []\<rparr>)"
  by (simp add: fetchMessage_def fetchMeta_def nofrom_message_def example_message_def
      example_envelope_def plain_reader_def new_mail_def parseMail_def fetchBody_def
      closeReader_def sniff_def example_mail_def CreateCounter_def)

text \<open>
  Claim C7: a mail without an error has a non-empty From list, so the access
  \<^verbatim>\<open>From[0]\<close> of getDirectoryName cannot fail. The code does not keep this. fetchMeta
  copies the From list of the envelope as it is and nothing checks it, so a message whose
  envelope names no sender parses without error and gives a mail with an empty From
  list; getDirectoryName reads \<^verbatim>\<open>mail.From[0]\<close> unguarded and panics on it, and with it
  the text handler. The theorem evaluates the code at that message.
\<close>

theorem C7_empty_From_panics:
  "fetchMessage sniff nofrom_message = Continue (example_mail\<lparr>From := []\<rparr>)
   \<and> Error (example_mail\<lparr>From := []\<rparr>) = None
   \<and> From (example_mail\<lparr>From := []\<rparr>) = []
   \<and> getDirectoryName ''mail'' ''user'' (example_mail\<lparr>From := []\<rparr>) = Inl IndexOutOfRange
   \<and> TextHandler_Handle sniff ''user'' () (example_mail\<lparr>From := []\<rparr>) empty_fs = Inl IndexOutOfRange"
  by (simp add: nofrom_message_mail example_mail_def getDirectoryName_def TextHandler_Handle_def)

subsection \<open>C1: a message without a body section, and a message that fails to parse\<close>

lemma receive_loop_filter:
  "fst (receive_loop J ms (kept, ml, fs, lg)) = kept @ ms
   \<and> snd (receive_loop J ms (kept, ml, fs, lg))
       = snd (receive_loop J (filter (\<lambda>m. Error m = None) ms) (kept', ml, fs, lg))"
proof (induction ms arbitrary: kept kept' ml fs lg)
  case Nil
  then show ?case by simp
next
  case (Cons m ms)
  show ?case
  proof (cases "Error m")
    case None
    obtain r ml' fs' where a: "addMail J ml m fs = (r, ml', fs')"
      by (cases "addMail J ml m fs")
    show ?thesis
    proof (cases r)
      case None
      then show ?thesis
        using \<open>Error m = None\<close> a Cons.IH [of "kept @ [m]" ml' fs' lg "kept' @ [m]"] by simp
    next
      case (Some e)
      then show ?thesis
        using \<open>Error m = None\<close> a
          Cons.IH [of "kept @ [m]" ml' fs' "lg @ [FailedToUpdateMetadata (Uid m) e]" "kept' @ [m]"]
        by simp
    qed
  next
    case (Some e)
    then show ?thesis using Cons.IH [of "kept @ [m]" ml fs lg kept'] by simp
  qed
qed

lemma handlers_loop_log:
  "final_files (handlers_loop hs config m (fs, lg)) = final_files (handlers_loop hs config m (fs, lg'))"
proof (induction hs arbitrary: fs lg lg')
  case Nil
  then show ?case by (simp add: final_files_def)
next
  case (Cons h hs)
  show ?case
  proof (cases "h config m fs")
    case (Inl p)
    then show ?thesis by (simp add: final_files_def)
  next
    case (Inr res)
    obtain r fs' where "res = (r, fs')" by (cases res)
    then show ?thesis using Inr Cons.IH [of fs'] by (cases r) simp_all
  qed
qed

lemma process_loop_filter:
  "final_files (process_loop hs config ms (fs, lg))
     = final_files (process_loop hs config (filter (\<lambda>m. Error m = None) ms) (fs, lg'))"
proof (induction ms arbitrary: fs lg lg')
  case Nil
  then show ?case by (simp add: final_files_def)
next
  case (Cons m ms)
  show ?case
  proof (cases "Error m")
    case (Some e)
    then show ?thesis using Cons.IH [of fs "lg @ [ErrorText m]" lg'] by simp
  next
    case None
    note True = None
    note h = handlers_loop_log [of hs config m fs lg lg']
    show ?thesis
    proof (cases "handlers_loop hs config m (fs, lg)")
      case (Inl p)
      then have "handlers_loop hs config m (fs, lg') = Inl p"
        using h by (auto simp: final_files_def split: sum.splits)
      then show ?thesis using True Inl by (simp add: final_files_def)
    next
      case (Inr st)
      obtain fs1 lg1 where st: "st = (fs1, lg1)" by (cases st)
      then obtain lg1' where "handlers_loop hs config m (fs, lg') = Inr (fs1, lg1')"
        using h Inr by (auto simp: final_files_def split: sum.splits)
      then show ?thesis using True Inr st Cons.IH [of fs1 lg1 lg1'] by simp
    qed
  qed
qed

lemma unparsable_message_mail:
  "\<exists>m. fetchMessage sniff unparsable_message = Continue m
       \<and> Error m = Some (Err ''malformed MIME header'') \<and> Uid m = 9"
  by (simp add: fetchMessage_def fetchMeta_def unparsable_message_def example_message_def
      closeReader_def)

text \<open>
  Claim C1 as stated: a message whose body-section reader cannot be obtained is recorded
  as a mail with an error, and the stream goes on. For a message without a body section
  fetchMessages sends no mail and returns the error \<open>no reader\<close>; the message that
  follows it is never looked at.
\<close>

theorem C1_counterexample:
  "GetBody noreader_message = None
   \<and> sent_mail (fetchMessage sniff noreader_message) = None
   \<and> fetchMessages sniff (source [noreader_message, example_message]) [8, 7]
       = ([], Return (Some (Err ''no reader'')))
   \<and> producer sniff (source [noreader_message, example_message]) [8, 7]
       = ([], LogFatal (Err ''no reader''))"
  by (simp add: noreader_message_stops sent_mail_def fetchMessages_def producer_def source_def,
      simp add: noreader_message_def)

text \<open>
  Claim C1, amended. When \<^verbatim>\<open>GetBody\<close> returns nil for a message, fetchMessages returns
  the error \<open>no reader\<close> there: the mails of the messages before it have been sent, none
  is sent for this message or a later one. When instead CreateReader or fetchBody
  returns an error for a message (and the mail reader, if there is one, closes without
  error), a mail with that error and the identifier of the message is sent and the loop
  goes on with the messages that follow, as it would have without this one. In main, a
  mail with an error is kept in the list of mails but changes neither the index nor the
  file system: the first loop adds to the index, and the second loop passes to the
  handlers, exactly the mails without an error.
\<close>

theorem C1_no_reader_and_parse_errors:
  "(Envelope msg \<noteq> None \<and> GetBody msg = None \<and> fetchMessages_loop D pre = (ms, Return None) \<longrightarrow>
      fetchMessages_loop D (pre @ msg # rest) = (ms, Return (Some (Err ''no reader''))))
   \<and> (well_formed msg \<and> GetBody msg = Some (CreateFailed er mailReader) \<longrightarrow>
        (\<exists>m. fetchMessage D msg = Continue m \<and> Error m = Some er \<and> Uid m = msg_Uid msg))
   \<and> (well_formed msg \<and> GetBody msg = Some (Created r)
        \<and> fetchBody_loop D (msg_Uid msg) (NextPart_err r) (parts r) ([], [], CreateCounter) = Inl er \<longrightarrow>
        (\<exists>m. fetchMessage D msg = Continue m \<and> Error m = Some er \<and> Uid m = msg_Uid msg))
   \<and> (fetchMessage D msg = Continue m \<and> fetchMessages_loop D pre = (ms, Return None) \<longrightarrow>
        fetchMessages_loop D (pre @ msg # rest)
          = (ms @ m # fst (fetchMessages_loop D rest), snd (fetchMessages_loop D rest)))
   \<and> fst (receive_loop J mails (kept, ml, fs, lg)) = kept @ mails
   \<and> snd (receive_loop J mails (kept, ml, fs, lg))
       = snd (receive_loop J (filter (\<lambda>m. Error m = None) mails) (kept, ml, fs, lg))
   \<and> final_files (process_loop hs config mails (fs, lg))
       = final_files (process_loop hs config (filter (\<lambda>m. Error m = None) mails) (fs, lg))"
proof -
  have a: "fetchMessages_loop D (pre @ msg # rest) = (ms, Return (Some (Err ''no reader'')))"
    if "Envelope msg \<noteq> None" "GetBody msg = None" "fetchMessages_loop D pre = (ms, Return None)"
  proof -
    have "fetchMessage D msg = Stop None (Return (Some (Err ''no reader'')))"
      using that(1,2) by (auto simp: fetchMessage_def fetchMeta_def)
    then show ?thesis using fetchMessages_loop_append [OF that(3), of "msg # rest"] by simp
  qed
  have b: "\<exists>m. fetchMessage D msg = Continue m \<and> Error m = Some er \<and> Uid m = msg_Uid msg"
    if "well_formed msg" "GetBody msg = Some (CreateFailed er mailReader)"
    using that
    by (cases mailReader)
       (auto simp: well_formed_def fetchMessage_def fetchMeta_def closeReader_def Let_def
          split: option.splits)
  have c: "\<exists>m. fetchMessage D msg = Continue m \<and> Error m = Some er \<and> Uid m = msg_Uid msg"
    if "well_formed msg" "GetBody msg = Some (Created r)"
      "fetchBody_loop D (msg_Uid msg) (NextPart_err r) (parts r) ([], [], CreateCounter) = Inl er"
    using that
    by (auto simp: well_formed_def fetchMessage_def fetchMeta_def closeReader_def Let_def
          Error_parseMail parseMail_meta split: option.splits)
  have d: "fetchMessages_loop D (pre @ msg # rest)
          = (ms @ m # fst (fetchMessages_loop D rest), snd (fetchMessages_loop D rest))"
    if "fetchMessage D msg = Continue m" "fetchMessages_loop D pre = (ms, Return None)"
    using fetchMessages_loop_append [OF that(2), of "msg # rest"] that(1)
    by (simp add: split_beta)
  show ?thesis
    using a b c d receive_loop_filter [of J mails kept ml fs lg kept]
      process_loop_filter [of hs config mails fs lg lg]
    by blast
qed

text \<open>
  Instances: a message without a body section between two plain messages; a message
  CreateReader rejects; a message whose attachment cannot be read; a plain message
  followed by one without a body section.
\<close>

theorem C1_no_reader_and_parse_errors_witness:
  "(Envelope noreader_message \<noteq> None \<and> GetBody noreader_message = None
      \<and> fetchMessages_loop sniff [example_message] = ([example_mail], Return None))
   \<and> fetchMessages_loop sniff ([example_message] @ noreader_message # [example_message])
       = ([example_mail], Return (Some (Err ''no reader'')))
   \<and> (well_formed unparsable_message
      \<and> GetBody unparsable_message = Some (CreateFailed (Err ''malformed MIME header'') None))
   \<and> (\<exists>m. fetchMessage sniff unparsable_message = Continue m
          \<and> Error m = Some (Err ''malformed MIME header'') \<and> Uid m = msg_Uid unparsable_message)
   \<and> (well_formed failing_message \<and> GetBody failing_message = Some (Created failing_reader)
      \<and> fetchBody_loop sniff (msg_Uid failing_message) (NextPart_err failing_reader)
            (parts failing_reader) ([], [], CreateCounter) = Inl (Err ''connection reset''))
   \<and> (\<exists>m. fetchMessage sniff failing_message = Continue m
          \<and> Error m = Some (Err ''connection reset'') \<and> Uid m = msg_Uid failing_message)
   \<and> (fetchMessage sniff example_message = Continue example_mail
      \<and> fetchMessages_loop sniff [] = ([], Return None))
   \<and> fetchMessages_loop sniff ([] @ example_message # [noreader_message])
       = ([] @ example_mail # fst (fetchMessages_loop sniff [noreader_message]),
          snd (fetchMessages_loop sniff [noreader_message]))
   \<and> fetchMessages_loop sniff [noreader_message] = ([], Return (Some (Err ''no reader'')))"
proof -
  have a: "Envelope noreader_message \<noteq> None \<and> GetBody noreader_message = None
      \<and> fetchMessages_loop sniff [example_message] = ([example_mail], Return None)"
    by (simp add: example_message_mail, simp add: noreader_message_def example_message_def)
  have b: "well_formed unparsable_message
      \<and> GetBody unparsable_message = Some (CreateFailed (Err ''malformed MIME header'') None)"
    using well_formed_examples by (simp add: unparsable_message_def)
  have c: "well_formed failing_message \<and> GetBody failing_message = Some (Created failing_reader)
      \<and> fetchBody_loop sniff (msg_Uid failing_message) (NextPart_err failing_reader)
            (parts failing_reader) ([], [], CreateCounter) = Inl (Err ''connection reset'')"
    by (simp add: well_formed_def failing_message_def example_message_def failing_reader_def
        empty_reader_def)
  have d: "fetchMessage sniff example_message = Continue example_mail
      \<and> fetchMessages_loop sniff [] = ([], Return None)"
    by (simp add: example_message_mail)
  have e: "fetchMessages_loop sniff [noreader_message] = ([], Return (Some (Err ''no reader'')))"
    by (simp add: noreader_message_stops)
  note t1 = C1_no_reader_and_parse_errors [where msg = noreader_message and D = sniff
      and pre = "[example_message]" and ms = "[example_mail]" and rest = "[example_message]"]
  note t2 = C1_no_reader_and_parse_errors [where msg = unparsable_message and D = sniff
      and er = "Err ''malformed MIME header''" and mailReader = None]
  note t3 = C1_no_reader_and_parse_errors [where msg = failing_message and D = sniff
      and r = failing_reader and er = "Err ''connection reset''"]
  note t4 = C1_no_reader_and_parse_errors [where msg = example_message and D = sniff
      and pre = "[]" and ms = "[]" and m = example_mail and rest = "[noreader_message]"]
  have r1: "fetchMessages_loop sniff ([example_message] @ noreader_message # [example_message])
       = ([example_mail], Return (Some (Err ''no reader'')))"
    by (rule t1 [THEN conjunct1, THEN mp, OF a])
  have r2: "\<exists>m. fetchMessage sniff unparsable_message = Continue m
          \<and> Error m = Some (Err ''malformed MIME header'') \<and> Uid m = msg_Uid unparsable_message"
    by (rule t2 [THEN conjunct2, THEN conjunct1, THEN mp, OF b])
  have r3: "\<exists>m. fetchMessage sniff failing_message = Continue m
          \<and> Error m = Some (Err ''connection reset'') \<and> Uid m = msg_Uid failing_message"
    by (rule t3 [THEN conjunct2, THEN conjunct2, THEN conjunct1, THEN mp, OF c])
  have r4: "fetchMessages_loop sniff ([] @ example_message # [noreader_message])
       = ([] @ example_mail # fst (fetchMessages_loop sniff [noreader_message]),
          snd (fetchMessages_loop sniff [noreader_message]))"
    by (rule t4 [THEN conjunct2, THEN conjunct2, THEN conjunct2, THEN conjunct1, THEN mp, OF d])
  show ?thesis using a b c d e r1 r2 r3 r4 by blast
qed

subsection \<open>C4: save replaces the document by a rename\<close>

lemma tmp_differs: "p @ ''.tmp'' \<noteq> p"
  by simp

lemma WriteFile_other:
  "name \<noteq> p \<Longrightarrow> files (snd (WriteFile name data fs)) p = files fs p"
  by (simp add: WriteFile_def split: option.splits prod.splits)

lemma Remove_other:
  "name \<noteq> p \<Longrightarrow> files (snd (Remove name fs)) p = files fs p"
  by (simp add: Remove_def split: option.splits)

lemma Rename_failed:
  "fst (Rename oldpath newpath fs) \<noteq> None \<Longrightarrow> snd (Rename oldpath newpath fs) = fs"
  by (auto simp: Rename_def split: option.splits)

lemma Rename_done:
  "fst (Rename oldpath newpath fs) = None \<Longrightarrow>
     files (snd (Rename oldpath newpath fs)) newpath = files fs oldpath \<and> files fs oldpath \<noteq> None"
  by (auto simp: Rename_def split: option.splits)

lemma WriteFile_done:
  "fst (WriteFile name data fs) = None \<Longrightarrow> files (snd (WriteFile name data fs)) name = Some data"
  by (auto simp: WriteFile_def split: option.splits prod.splits)

text \<open>What save does, step by step, once the document is serialized.\<close>

lemma save_steps_cases:
  assumes "MarshalIndent J ml = Inr data"
  shows "(fst (WriteFile (path ml @ ''.tmp'') data fs) \<noteq> None
            \<and> fst (save_steps J ml fs) \<noteq> None
            \<and> snd (save_steps J ml fs) = [fs, snd (WriteFile (path ml @ ''.tmp'') data fs)])
       \<or> (fst (WriteFile (path ml @ ''.tmp'') data fs) = None
            \<and> fst (Rename (path ml @ ''.tmp'') (path ml) (snd (WriteFile (path ml @ ''.tmp'') data fs))) \<noteq> None
            \<and> fst (save_steps J ml fs) \<noteq> None
            \<and> snd (save_steps J ml fs)
                = [fs, snd (WriteFile (path ml @ ''.tmp'') data fs),
                   snd (WriteFile (path ml @ ''.tmp'') data fs),
                   snd (Remove (path ml @ ''.tmp'') (snd (WriteFile (path ml @ ''.tmp'') data fs)))])
       \<or> (fst (WriteFile (path ml @ ''.tmp'') data fs) = None
            \<and> fst (Rename (path ml @ ''.tmp'') (path ml) (snd (WriteFile (path ml @ ''.tmp'') data fs))) = None
            \<and> fst (save_steps J ml fs) = None
            \<and> snd (save_steps J ml fs)
                = [fs, snd (WriteFile (path ml @ ''.tmp'') data fs),
                   snd (Rename (path ml @ ''.tmp'') (path ml) (snd (WriteFile (path ml @ ''.tmp'') data fs)))])"
proof -
  let ?w = "WriteFile (path ml @ ''.tmp'') data fs"
  let ?r = "Rename (path ml @ ''.tmp'') (path ml) (snd ?w)"
  show ?thesis
  proof (cases "fst ?w")
    case (Some e)
    then show ?thesis using assms
      by (cases ?w) (simp add: save_steps_def)
  next
    case None
    show ?thesis
    proof (cases "fst ?r")
      case (Some e)
      then have "snd ?r = snd ?w" using Rename_failed [of "path ml @ ''.tmp''" "path ml" "snd ?w"] by simp
      then show ?thesis using assms None Some
        by (cases ?w; cases ?r) (simp add: save_steps_def)
    next
      case None
      then show ?thesis using assms \<open>fst ?w = None\<close>
        by (cases ?w; cases ?r) (simp add: save_steps_def)
    qed
  qed
qed

text \<open>
  Claim C4. save writes the whole document to the temporary file \<^verbatim>\<open>path + ".tmp"\<close> and
  then renames it over the index file. In every state of the file system that save
  passes through, the index file holds what it held before the call or the whole new
  document, so a failure or a crash at any point, between the write and the rename in
  particular, leaves one of the two. When save returns an error the index file holds
  what it held before; when save returns nil it holds the new document.
\<close>

theorem C4_save_is_atomic:
  "(\<forall>s \<in> set (snd (save_steps J ml fs)).
        files s (path ml) = files fs (path ml)
      \<or> (\<exists>data. MarshalIndent J ml = Inr data \<and> files s (path ml) = Some data))
   \<and> snd (save J ml fs) \<in> set (snd (save_steps J ml fs))
   \<and> fst (save J ml fs) = fst (save_steps J ml fs)
   \<and> (\<forall>data. MarshalIndent J ml = Inr data \<longrightarrow>
        snd (WriteFile (path ml @ ''.tmp'') data fs) \<in> set (snd (save_steps J ml fs))
      \<and> files (snd (WriteFile (path ml @ ''.tmp'') data fs)) (path ml) = files fs (path ml))
   \<and> (fst (save J ml fs) \<noteq> None \<longrightarrow> files (snd (save J ml fs)) (path ml) = files fs (path ml))
   \<and> (fst (save J ml fs) = None \<longrightarrow>
        (\<exists>data. MarshalIndent J ml = Inr data \<and> files (snd (save J ml fs)) (path ml) = Some data))"
proof (cases "MarshalIndent J ml")
  case (Inl e)
  then show ?thesis by (simp add: save_def save_steps_def)
next
  case (Inr data)
  let ?tmp = "path ml @ ''.tmp''"
  let ?w = "WriteFile ?tmp data fs"
  let ?r = "Rename ?tmp (path ml) (snd ?w)"
  have w: "files (snd ?w) (path ml) = files fs (path ml)"
    by (rule WriteFile_other) simp
  have rm: "files (snd (Remove ?tmp (snd ?w))) (path ml) = files fs (path ml)"
    using Remove_other [of ?tmp "path ml" "snd ?w"] w by simp
  have rn: "files (snd ?r) (path ml) = Some data" if "fst ?w = None" "fst ?r = None"
    using Rename_done [OF that(2)] WriteFile_done [OF that(1)] by simp
  have sv: "save J ml fs = (fst (save_steps J ml fs), last (snd (save_steps J ml fs)))"
    by (simp add: save_def split_beta)
  from save_steps_cases [OF Inr, of fs] show ?thesis
  proof (elim disjE conjE)
    assume a: "fst ?w \<noteq> None" "fst (save_steps J ml fs) \<noteq> None"
      "snd (save_steps J ml fs) = [fs, snd ?w]"
    then show ?thesis using Inr w sv by auto
  next
    assume a: "fst ?w = None" "fst ?r \<noteq> None" "fst (save_steps J ml fs) \<noteq> None"
      "snd (save_steps J ml fs) = [fs, snd ?w, snd ?w, snd (Remove ?tmp (snd ?w))]"
    then show ?thesis using Inr w rm sv by auto
  next
    assume a: "fst ?w = None" "fst ?r = None" "fst (save_steps J ml fs) = None"
      "snd (save_steps J ml fs) = [fs, snd ?w, snd ?r]"
    then show ?thesis using Inr w rn [OF a(1,2)] sv by auto
  qed
qed

text \<open>
  Two instances, on a file system that holds an earlier document: one where the rename
  fails, one where nothing fails.
\<close>

lemma example_index_document: "MarshalIndent example_codec example_index = Inr ''user''"
  by (simp add: example_codec_def example_index_def)

lemma save_norename: "fst (save example_codec example_index norename_fs) \<noteq> None"
  by (simp add: save_def save_steps_def example_index_document WriteFile_def Rename_def Let_def
      norename_fs_def old_fs_def empty_fs_def)

lemma save_old: "fst (save example_codec example_index old_fs) = None"
  by (simp add: save_def save_steps_def example_index_document WriteFile_def Rename_def Let_def
      old_fs_def empty_fs_def)

theorem C4_save_is_atomic_witness:
  "MarshalIndent example_codec example_index = Inr ''user''
   \<and> files norename_fs (path example_index) = Some ''old document''
   \<and> snd (WriteFile (path example_index @ ''.tmp'') ''user'' norename_fs)
       \<in> set (snd (save_steps example_codec example_index norename_fs))
   \<and> files (snd (WriteFile (path example_index @ ''.tmp'') ''user'' norename_fs)) (path example_index)
       = Some ''old document''
   \<and> fst (save example_codec example_index norename_fs) \<noteq> None
   \<and> snd (save example_codec example_index norename_fs)
       \<in> set (snd (save_steps example_codec example_index norename_fs))
   \<and> files (snd (save example_codec example_index norename_fs)) (path example_index)
       = Some ''old document''
   \<and> files old_fs (path example_index) = Some ''old document''
   \<and> fst (save example_codec example_index old_fs) = None
   \<and> files (snd (save example_codec example_index old_fs)) (path example_index) = Some ''user''"
proof -
  have o: "files norename_fs (path example_index) = Some ''old document''
         \<and> files old_fs (path example_index) = Some ''old document''"
    by (simp add: norename_fs_def old_fs_def example_index_def)
  show ?thesis
    using C4_save_is_atomic [of example_codec example_index norename_fs]
      C4_save_is_atomic [of example_codec example_index old_fs]
      example_index_document save_norename save_old o
    by auto
qed

subsection \<open>C3: addMail replaces by identifier or appends\<close>

lemma save_outcome:
  "(fst (save J ml fs) \<noteq> None \<longrightarrow> files (snd (save J ml fs)) (path ml) = files fs (path ml))
   \<and> (fst (save J ml fs) = None \<longrightarrow>
        (\<exists>data. MarshalIndent J ml = Inr data \<and> files (snd (save J ml fs)) (path ml) = Some data))"
proof (cases "MarshalIndent J ml")
  case (Inl e)
  then show ?thesis by (simp add: save_def save_steps_def)
next
  case (Inr data)
  let ?tmp = "path ml @ ''.tmp''"
  let ?w = "WriteFile ?tmp data fs"
  let ?r = "Rename ?tmp (path ml) (snd ?w)"
  have w: "files (snd ?w) (path ml) = files fs (path ml)"
    by (rule WriteFile_other) simp
  have rm: "files (snd (Remove ?tmp (snd ?w))) (path ml) = files fs (path ml)"
    using Remove_other [of ?tmp "path ml" "snd ?w"] w by simp
  have rn: "files (snd ?r) (path ml) = Some data" if "fst ?w = None" "fst ?r = None"
    using Rename_done [OF that(2)] WriteFile_done [OF that(1)] by simp
  have sv: "save J ml fs = (fst (save_steps J ml fs), last (snd (save_steps J ml fs)))"
    by (simp add: save_def split_beta)
  from save_steps_cases [OF Inr, of fs] show ?thesis
    using Inr w rm rn sv by (elim disjE conjE) auto
qed

lemma upsert_append: "json_Uid jm \<notin> json_Uid ` set xs \<Longrightarrow> upsert xs jm = xs @ [jm]"
  by (induction xs) auto

lemma upsert_replace:
  "json_Uid jm \<in> json_Uid ` set xs \<Longrightarrow>
     \<exists>i < length xs. json_Uid (xs ! i) = json_Uid jm
        \<and> (\<forall>j < i. json_Uid (xs ! j) \<noteq> json_Uid jm) \<and> upsert xs jm = xs[i := jm]"
proof (induction xs)
  case Nil
  then show ?case by simp
next
  case (Cons x xs)
  show ?case
  proof (cases "json_Uid x = json_Uid jm")
    case True
    then have "0 < length (x # xs) \<and> json_Uid ((x # xs) ! 0) = json_Uid jm
        \<and> (\<forall>j < 0. json_Uid ((x # xs) ! j) \<noteq> json_Uid jm) \<and> upsert (x # xs) jm = (x # xs)[0 := jm]"
      by simp
    then show ?thesis by blast
  next
    case False
    with Cons obtain i where i: "i < length xs" "json_Uid (xs ! i) = json_Uid jm"
      "\<forall>j < i. json_Uid (xs ! j) \<noteq> json_Uid jm" "upsert xs jm = xs[i := jm]"
      by auto
    have "\<forall>j < Suc i. json_Uid ((x # xs) ! j) \<noteq> json_Uid jm"
      using False i(3) by (auto simp: less_Suc_eq_0_disj)
    then have "Suc i < length (x # xs) \<and> json_Uid ((x # xs) ! Suc i) = json_Uid jm
        \<and> (\<forall>j < Suc i. json_Uid ((x # xs) ! j) \<noteq> json_Uid jm)
        \<and> upsert (x # xs) jm = (x # xs)[Suc i := jm]"
      using False i by simp
    then show ?thesis by blast
  qed
qed

lemma length_upsert:
  "length (upsert xs jm) = (if json_Uid jm \<in> json_Uid ` set xs then length xs else Suc (length xs))"
  by (induction xs) auto

lemma set_upsert_Uids: "json_Uid ` set (upsert xs jm) = insert (json_Uid jm) (json_Uid ` set xs)"
  by (induction xs) auto

lemma upsert_distinct:
  "distinct (map json_Uid xs) \<Longrightarrow>
     distinct (map json_Uid (upsert xs jm))
     \<and> filter (\<lambda>e. json_Uid e = json_Uid jm) (upsert xs jm) = [jm]"
proof (induction xs)
  case Nil
  then show ?case by simp
next
  case (Cons x xs)
  show ?case
  proof (cases "json_Uid x = json_Uid jm")
    case True
    then have "json_Uid jm \<notin> json_Uid ` set xs" using Cons.prems by auto
    then have "filter (\<lambda>e. json_Uid e = json_Uid jm) xs = []"
      by (force simp: filter_empty_conv image_iff)
    then show ?thesis using True Cons.prems by simp
  next
    case False
    then show ?thesis using Cons set_upsert_Uids [of xs jm] by auto
  qed
qed

lemma addMail_roundtrip:
  assumes "roundtrip J m"
  shows "index_after (addMail J ml m fs) = ml\<lparr>List := upsert (List ml) (toJsonMail m)\<rparr>
       \<and> fst (addMail J ml m fs) = fst (save J (ml\<lparr>List := upsert (List ml) (toJsonMail m)\<rparr>) fs)
       \<and> files_after (addMail J ml m fs) = snd (save J (ml\<lparr>List := upsert (List ml) (toJsonMail m)\<rparr>) fs)"
  using assms
  by (auto simp: roundtrip_def addMail_def index_after_def files_after_def Let_def split_beta
      split: sum.splits)

lemma foldl_upsert_distinct:
  "distinct (map json_Uid js) \<Longrightarrow> json_Uid ` set js \<inter> json_Uid ` set xs = {} \<Longrightarrow>
     foldl upsert xs js = xs @ js"
proof (induction js arbitrary: xs)
  case Nil
  then show ?case by simp
next
  case (Cons j js)
  have a: "upsert xs j = xs @ [j]"
    using Cons.prems(2) by (intro upsert_append) auto
  have "json_Uid ` set js \<inter> json_Uid ` set (xs @ [j]) = {}"
    using Cons.prems by auto
  then show ?case using Cons.IH [of "xs @ [j]"] Cons.prems(1) a by simp
qed

lemma receive_loop_snoc:
  "receive_loop J (ms @ [m]) st = receive_loop J [m] (receive_loop J ms st)"
proof (induction ms arbitrary: st)
  case Nil
  then show ?case by simp
next
  case (Cons a ms)
  obtain kept ml fs lg where st: "st = (kept, ml, fs, lg)" by (cases st)
  show ?case unfolding st using Cons.IH
    by (cases "addMail J ml a fs" rule: prod_cases3) (auto split: option.splits)
qed

lemma receive_loop_index:
  assumes "\<forall>m \<in> set ms. Error m = None \<and> roundtrip J m"
  shows "List (fst (snd (receive_loop J ms (kept, ml, fs, lg))))
           = foldl upsert (List ml) (map toJsonMail ms)
       \<and> path (fst (snd (receive_loop J ms (kept, ml, fs, lg)))) = path ml
       \<and> (\<exists>more. snd (snd (snd (receive_loop J ms (kept, ml, fs, lg)))) = lg @ more)"
  using assms
proof (induction ms arbitrary: kept ml fs lg)
  case Nil
  then show ?case by simp
next
  case (Cons m ms)
  let ?ml = "ml\<lparr>List := upsert (List ml) (toJsonMail m)\<rparr>"
  from Cons.prems have m: "Error m = None" "roundtrip J m" by simp_all
  note a = addMail_roundtrip [OF m(2), of ml fs]
  obtain r ml' fs' where am: "addMail J ml m fs = (r, ml', fs')"
    by (cases "addMail J ml m fs" rule: prod_cases3)
  then have ml': "ml' = ?ml" using a by (simp add: index_after_def)
  from Cons.prems have rest: "\<forall>m \<in> set ms. Error m = None \<and> roundtrip J m" by simp
  show ?case
  proof (cases r)
    case None
    then show ?thesis
      using m(1) am ml' Cons.IH [OF rest, of "kept @ [m]" ?ml fs' lg] by simp
  next
    case (Some e)
    then show ?thesis
      using m(1) am ml' Cons.IH [OF rest, of "kept @ [m]" ?ml fs' "lg @ [FailedToUpdateMetadata (Uid m) e]"]
      by auto
  qed
qed

lemma receive_loop_persisted:
  assumes ok: "\<forall>m \<in> set ms. Error m = None \<and> roundtrip J m"
    and ne: "ms \<noteq> []"
    and quiet: "snd (snd (snd (receive_loop J ms (kept, ml, fs, lg)))) = lg"
  shows "\<exists>data. MarshalIndent J (fst (snd (receive_loop J ms (kept, ml, fs, lg)))) = Inr data
           \<and> files (fst (snd (snd (receive_loop J ms (kept, ml, fs, lg))))) (path ml) = Some data"
proof -
  from ne obtain ms0 m where ms: "ms = ms0 @ [m]"
    by (metis rev_exhaust)
  obtain k1 ml1 fs1 lg1 where st1: "receive_loop J ms0 (kept, ml, fs, lg) = (k1, ml1, fs1, lg1)"
    by (cases "receive_loop J ms0 (kept, ml, fs, lg)" rule: prod_cases4)
  from ok ms have ok0: "\<forall>m \<in> set ms0. Error m = None \<and> roundtrip J m"
    and m: "Error m = None" "roundtrip J m" by simp_all
  from receive_loop_index [OF ok0, of kept ml fs lg] st1
  obtain more where p1: "path ml1 = path ml" and l1: "lg1 = lg @ more" by auto
  let ?ml = "ml1\<lparr>List := upsert (List ml1) (toJsonMail m)\<rparr>"
  note a = addMail_roundtrip [OF m(2), of ml1 fs1]
  obtain r ml' fs' where am: "addMail J ml1 m fs1 = (r, ml', fs')"
    by (cases "addMail J ml1 m fs1" rule: prod_cases3)
  then have r: "r = fst (save J ?ml fs1)" and ml': "ml' = ?ml" and fs': "fs' = snd (save J ?ml fs1)"
    using a by (simp_all add: index_after_def files_after_def)
  have final: "receive_loop J ms (kept, ml, fs, lg) = receive_loop J [m] (k1, ml1, fs1, lg1)"
    by (simp add: ms receive_loop_snoc st1)
  have "r = None"
  proof (cases r)
    case None
    then show ?thesis .
  next
    case (Some e)
    then have "snd (snd (snd (receive_loop J ms (kept, ml, fs, lg))))
        = lg @ more @ [FailedToUpdateMetadata (Uid m) e]"
      using final m(1) am l1 by simp
    with quiet show ?thesis by simp
  qed
  then have res: "receive_loop J ms (kept, ml, fs, lg) = (k1 @ [m], ml', fs', lg1)"
    using final m(1) am by simp
  from \<open>r = None\<close> r save_outcome [of J ?ml fs1]
  obtain data where "MarshalIndent J ?ml = Inr data" "files (snd (save J ?ml fs1)) (path ?ml) = Some data"
    by auto
  then show ?thesis using res ml' fs' p1 by simp
qed

text \<open>
  Claim C3. With a JSON conversion that gives back the record toJson built: addMail
  overwrites the first entry of the list that has the Uid of the mail, in place, and
  appends the record when no entry has it. In a list whose entries have distinct Uids,
  the list after addMail has distinct Uids again and exactly one entry with the Uid of
  the mail, the new record; so adding the same Uid twice with different subjects leaves
  one entry with that Uid, holding the later subject, and the second call does not
  change the length. Adding N mails with N distinct Uids to an empty list gives the N
  records in order. When addMail returns nil, the index file holds the serialized list;
  after N additions none of which failed, it holds the list of N entries.
\<close>

theorem C3_upsert_by_Uid:
  "(roundtrip J m \<longrightarrow>
       (Uid m \<in> json_Uid ` set (List ml) \<longrightarrow>
          (\<exists>i < length (List ml). json_Uid (List ml ! i) = Uid m
              \<and> (\<forall>j < i. json_Uid (List ml ! j) \<noteq> Uid m)
              \<and> List (index_after (addMail J ml m fs)) = (List ml)[i := toJsonMail m]))
     \<and> (Uid m \<notin> json_Uid ` set (List ml) \<longrightarrow>
          List (index_after (addMail J ml m fs)) = List ml @ [toJsonMail m])
     \<and> (distinct (map json_Uid (List ml)) \<longrightarrow>
          distinct (map json_Uid (List (index_after (addMail J ml m fs))))
        \<and> filter (\<lambda>e. json_Uid e = Uid m) (List (index_after (addMail J ml m fs))) = [toJsonMail m])
     \<and> (fst (addMail J ml m fs) = None \<longrightarrow>
          (\<exists>data. MarshalIndent J (index_after (addMail J ml m fs)) = Inr data
              \<and> files (files_after (addMail J ml m fs)) (path ml) = Some data)))
   \<and> (roundtrip J m1 \<and> roundtrip J m2 \<and> Uid m1 = Uid m2 \<and> distinct (map json_Uid (List ml)) \<longrightarrow>
        filter (\<lambda>e. json_Uid e = Uid m2)
          (List (index_after (addMail J (index_after (addMail J ml m1 fs)) m2
                   (files_after (addMail J ml m1 fs))))) = [toJsonMail m2]
      \<and> json_Subject (toJsonMail m2) = Subject m2
      \<and> length (List (index_after (addMail J (index_after (addMail J ml m1 fs)) m2
                   (files_after (addMail J ml m1 fs)))))
          = length (List (index_after (addMail J ml m1 fs))))
   \<and> ((\<forall>m \<in> set ms. Error m = None \<and> roundtrip J m) \<and> distinct (map Uid ms) \<and> List ml = [] \<longrightarrow>
        List (fst (snd (receive_loop J ms (kept, ml, fs, lg)))) = map toJsonMail ms
      \<and> length (List (fst (snd (receive_loop J ms (kept, ml, fs, lg))))) = length ms
      \<and> (ms \<noteq> [] \<and> snd (snd (snd (receive_loop J ms (kept, ml, fs, lg)))) = lg \<longrightarrow>
           (\<exists>data. MarshalIndent J (fst (snd (receive_loop J ms (kept, ml, fs, lg)))) = Inr data
               \<and> files (fst (snd (snd (receive_loop J ms (kept, ml, fs, lg))))) (path ml) = Some data)))"
proof -
  have u: "json_Uid (toJsonMail x) = Uid x" for x
    by (simp add: toJsonMail_def)
  have one: "(Uid m \<in> json_Uid ` set (List ml) \<longrightarrow>
          (\<exists>i < length (List ml). json_Uid (List ml ! i) = Uid m
              \<and> (\<forall>j < i. json_Uid (List ml ! j) \<noteq> Uid m)
              \<and> List (index_after (addMail J ml m fs)) = (List ml)[i := toJsonMail m]))
     \<and> (Uid m \<notin> json_Uid ` set (List ml) \<longrightarrow>
          List (index_after (addMail J ml m fs)) = List ml @ [toJsonMail m])
     \<and> (distinct (map json_Uid (List ml)) \<longrightarrow>
          distinct (map json_Uid (List (index_after (addMail J ml m fs))))
        \<and> filter (\<lambda>e. json_Uid e = Uid m) (List (index_after (addMail J ml m fs))) = [toJsonMail m])
     \<and> (fst (addMail J ml m fs) = None \<longrightarrow>
          (\<exists>data. MarshalIndent J (index_after (addMail J ml m fs)) = Inr data
              \<and> files (files_after (addMail J ml m fs)) (path ml) = Some data))"
    if rt: "roundtrip J m"
  proof -
    note a = addMail_roundtrip [OF rt, of ml fs]
    have l: "List (index_after (addMail J ml m fs)) = upsert (List ml) (toJsonMail m)"
      using a by simp
    have p1: "Uid m \<in> json_Uid ` set (List ml) \<Longrightarrow>
          \<exists>i < length (List ml). json_Uid (List ml ! i) = Uid m
              \<and> (\<forall>j < i. json_Uid (List ml ! j) \<noteq> Uid m)
              \<and> List (index_after (addMail J ml m fs)) = (List ml)[i := toJsonMail m]"
      using upsert_replace [of "toJsonMail m" "List ml"] by (simp add: l u)
    have p2: "Uid m \<notin> json_Uid ` set (List ml) \<Longrightarrow>
          List (index_after (addMail J ml m fs)) = List ml @ [toJsonMail m]"
      using upsert_append [of "toJsonMail m" "List ml"] by (simp add: l u)
    have p3: "distinct (map json_Uid (List ml)) \<Longrightarrow>
          distinct (map json_Uid (List (index_after (addMail J ml m fs))))
        \<and> filter (\<lambda>e. json_Uid e = Uid m) (List (index_after (addMail J ml m fs))) = [toJsonMail m]"
      using upsert_distinct [of "List ml" "toJsonMail m"] by (simp add: l u)
    have p4: "fst (addMail J ml m fs) = None \<Longrightarrow>
          \<exists>data. MarshalIndent J (index_after (addMail J ml m fs)) = Inr data
              \<and> files (files_after (addMail J ml m fs)) (path ml) = Some data"
      using save_outcome [of J "ml\<lparr>List := upsert (List ml) (toJsonMail m)\<rparr>" fs] a by simp
    show ?thesis using p1 p2 p3 p4 by blast
  qed
  have two: "filter (\<lambda>e. json_Uid e = Uid m2)
          (List (index_after (addMail J (index_after (addMail J ml m1 fs)) m2
                   (files_after (addMail J ml m1 fs))))) = [toJsonMail m2]
      \<and> json_Subject (toJsonMail m2) = Subject m2
      \<and> length (List (index_after (addMail J (index_after (addMail J ml m1 fs)) m2
                   (files_after (addMail J ml m1 fs)))))
          = length (List (index_after (addMail J ml m1 fs)))"
    if rt: "roundtrip J m1" "roundtrip J m2" and same: "Uid m1 = Uid m2"
      and d: "distinct (map json_Uid (List ml))"
  proof -
    let ?ml1 = "index_after (addMail J ml m1 fs)"
    let ?fs1 = "files_after (addMail J ml m1 fs)"
    have l1: "List ?ml1 = upsert (List ml) (toJsonMail m1)"
      using addMail_roundtrip [OF rt(1), of ml fs] by simp
    have l2: "List (index_after (addMail J ?ml1 m2 ?fs1)) = upsert (List ?ml1) (toJsonMail m2)"
      using addMail_roundtrip [OF rt(2), of ?ml1 ?fs1] by simp
    have d1: "distinct (map json_Uid (List ?ml1))"
      using upsert_distinct [OF d, of "toJsonMail m1"] by (simp add: l1)
    have "Uid m2 \<in> json_Uid ` set (List ?ml1)"
      using set_upsert_Uids [of "List ml" "toJsonMail m1"] same by (simp add: l1 u)
    then have len: "length (upsert (List ?ml1) (toJsonMail m2)) = length (List ?ml1)"
      by (simp add: length_upsert u)
    show ?thesis
      using upsert_distinct [OF d1, of "toJsonMail m2"] len
      by (simp add: l2 u, simp add: toJsonMail_def)
  qed
  have many: "List (fst (snd (receive_loop J ms (kept, ml, fs, lg)))) = map toJsonMail ms
      \<and> length (List (fst (snd (receive_loop J ms (kept, ml, fs, lg))))) = length ms
      \<and> (ms \<noteq> [] \<and> snd (snd (snd (receive_loop J ms (kept, ml, fs, lg)))) = lg \<longrightarrow>
           (\<exists>data. MarshalIndent J (fst (snd (receive_loop J ms (kept, ml, fs, lg)))) = Inr data
               \<and> files (fst (snd (snd (receive_loop J ms (kept, ml, fs, lg))))) (path ml) = Some data))"
    if ok: "\<forall>m \<in> set ms. Error m = None \<and> roundtrip J m" and d: "distinct (map Uid ms)"
      and e: "List ml = []"
  proof -
    have "json_Uid \<circ> toJsonMail = Uid"
      by (rule ext) (simp add: u)
    then have "distinct (map json_Uid (map toJsonMail ms))"
      using d by simp
    then have "foldl upsert [] (map toJsonMail ms) = [] @ map toJsonMail ms"
      by (intro foldl_upsert_distinct) simp_all
    then have l: "List (fst (snd (receive_loop J ms (kept, ml, fs, lg)))) = map toJsonMail ms"
      using receive_loop_index [OF ok, of kept ml fs lg] e by simp
    show ?thesis using l receive_loop_persisted [OF ok, of kept ml fs lg] by simp
  qed
  show ?thesis using one two many by blast
qed

text \<open>
  An instance: the mails 7 (twice, the second time with another subject) and 8, added to
  the empty index of \<open>user\<close>.
\<close>

lemma example_roundtrips:
  "roundtrip example_codec (bare_mail 7 ''Invoice'')
   \<and> roundtrip example_codec (bare_mail 7 ''Invoice (corrected)'')
   \<and> roundtrip example_codec (bare_mail 8 ''Receipt'')"
  by code_simp

lemma no_faults_examples: "no_faults empty_fs \<and> no_faults old_fs"
  by (simp add: no_faults_def empty_fs_def old_fs_def)

lemma save_no_faults:
  assumes "no_faults fs" and "MarshalIndent J ml = Inr data"
  shows "fst (save J ml fs) = None \<and> no_faults (snd (save J ml fs))"
  using assms
  by (simp add: no_faults_def save_def save_steps_def WriteFile_def Rename_def Let_def)

lemma receive_loop_quiet:
  assumes "\<forall>m \<in> set ms. Error m = None \<and> roundtrip J m"
    and "\<forall>ml. \<exists>data. MarshalIndent J ml = Inr data"
    and "no_faults fs"
  shows "snd (snd (snd (receive_loop J ms (kept, ml, fs, lg)))) = lg"
  using assms(1,3)
proof (induction ms arbitrary: kept ml fs)
  case Nil
  then show ?case by simp
next
  case (Cons m ms)
  let ?ml = "ml\<lparr>List := upsert (List ml) (toJsonMail m)\<rparr>"
  from Cons.prems have m: "Error m = None" "roundtrip J m"
    and rest: "\<forall>m \<in> set ms. Error m = None \<and> roundtrip J m" by simp_all
  obtain data where "MarshalIndent J ?ml = Inr data" using assms(2) by blast
  note s = save_no_faults [OF Cons.prems(2) this]
  note a = addMail_roundtrip [OF m(2), of ml fs]
  have "addMail J ml m fs = (None, ?ml, snd (save J ?ml fs))"
    using a s by (cases "addMail J ml m fs" rule: prod_cases3) (simp add: index_after_def files_after_def)
  then show ?case using m(1) s Cons.IH [OF rest, of "snd (save J ?ml fs)" "kept @ [m]" ?ml] by simp
qed

lemma example_quiet:
  "snd (snd (snd (receive_loop example_codec [bare_mail 7 ''Invoice'', bare_mail 8 ''Receipt'']
     ([], example_index, old_fs, [])))) = []"
proof (rule receive_loop_quiet)
  show "\<forall>m \<in> set [bare_mail 7 ''Invoice'', bare_mail 8 ''Receipt''].
          Error m = None \<and> roundtrip example_codec m"
    using example_roundtrips by (simp add: bare_mail_def new_mail_def)
  show "\<forall>ml. \<exists>data. MarshalIndent example_codec ml = Inr data"
    by (simp add: example_codec_def)
  show "no_faults old_fs"
    using no_faults_examples by simp
qed

theorem C3_upsert_by_Uid_witness:
  "(roundtrip example_codec (bare_mail 7 ''Invoice'')
      \<and> roundtrip example_codec (bare_mail 7 ''Invoice (corrected)'')
      \<and> roundtrip example_codec (bare_mail 8 ''Receipt''))
   \<and> Uid (bare_mail 7 ''Invoice'') \<notin> json_Uid ` set (List example_index)
   \<and> List (index_after (addMail example_codec example_index (bare_mail 7 ''Invoice'') old_fs))
       = List example_index @ [toJsonMail (bare_mail 7 ''Invoice'')]
   \<and> Uid (bare_mail 7 ''Invoice'') = Uid (bare_mail 7 ''Invoice (corrected)'')
   \<and> distinct (map json_Uid (List example_index))
   \<and> filter (\<lambda>e. json_Uid e = Uid (bare_mail 7 ''Invoice (corrected)''))
        (List (index_after (addMail example_codec
           (index_after (addMail example_codec example_index (bare_mail 7 ''Invoice'') old_fs))
           (bare_mail 7 ''Invoice (corrected)'')
           (files_after (addMail example_codec example_index (bare_mail 7 ''Invoice'') old_fs)))))
       = [toJsonMail (bare_mail 7 ''Invoice (corrected)'')]
   \<and> json_Subject (toJsonMail (bare_mail 7 ''Invoice (corrected)'')) = ''Invoice (corrected)''
   \<and> length (List (index_after (addMail example_codec
           (index_after (addMail example_codec example_index (bare_mail 7 ''Invoice'') old_fs))
           (bare_mail 7 ''Invoice (corrected)'')
           (files_after (addMail example_codec example_index (bare_mail 7 ''Invoice'') old_fs))))) = 1
   \<and> (distinct (map Uid [bare_mail 7 ''Invoice'', bare_mail 8 ''Receipt'']) \<and> List example_index = [])
   \<and> length (List (fst (snd (receive_loop example_codec
          [bare_mail 7 ''Invoice'', bare_mail 8 ''Receipt''] ([], example_index, old_fs, []))))) = 2
   \<and> snd (snd (snd (receive_loop example_codec [bare_mail 7 ''Invoice'', bare_mail 8 ''Receipt'']
          ([], example_index, old_fs, [])))) = []
   \<and> (\<exists>data. MarshalIndent example_codec (fst (snd (receive_loop example_codec
            [bare_mail 7 ''Invoice'', bare_mail 8 ''Receipt''] ([], example_index, old_fs, [])))) = Inr data
         \<and> files (fst (snd (snd (receive_loop example_codec
            [bare_mail 7 ''Invoice'', bare_mail 8 ''Receipt''] ([], example_index, old_fs, [])))))
              (path example_index) = Some data)"
proof -
  let ?m1 = "bare_mail 7 ''Invoice''"
  let ?m2 = "bare_mail 7 ''Invoice (corrected)''"
  let ?m3 = "bare_mail 8 ''Receipt''"
  note rt = example_roundtrips
  have e: "List example_index = []" "Uid ?m1 = 7" "Uid ?m2 = 7" "Uid ?m3 = 8"
    "Subject ?m2 = ''Invoice (corrected)''"
    by (simp_all add: example_index_def bare_mail_def)
  have ok: "\<forall>m \<in> set [?m1, ?m3]. Error m = None \<and> roundtrip example_codec m"
    using rt by (simp add: bare_mail_def new_mail_def)
  note t = C3_upsert_by_Uid [where J = example_codec and ml = example_index and fs = old_fs
      and m = ?m1 and ?m1.0 = ?m1 and ?m2.0 = ?m2 and ms = "[?m1, ?m3]" and kept = "[]" and lg = "[]"]
  have a: "List (index_after (addMail example_codec example_index ?m1 old_fs))
       = List example_index @ [toJsonMail ?m1]"
    using t rt e by simp
  have b: "filter (\<lambda>e. json_Uid e = Uid ?m2)
        (List (index_after (addMail example_codec
           (index_after (addMail example_codec example_index ?m1 old_fs)) ?m2
           (files_after (addMail example_codec example_index ?m1 old_fs)))))
       = [toJsonMail ?m2]
     \<and> length (List (index_after (addMail example_codec
           (index_after (addMail example_codec example_index ?m1 old_fs)) ?m2
           (files_after (addMail example_codec example_index ?m1 old_fs)))))
       = length (List (index_after (addMail example_codec example_index ?m1 old_fs)))"
    using t rt e by simp
  have c: "length (List (fst (snd (receive_loop example_codec [?m1, ?m3] ([], example_index, old_fs, []))))) = 2
     \<and> (\<exists>data. MarshalIndent example_codec (fst (snd (receive_loop example_codec
            [?m1, ?m3] ([], example_index, old_fs, [])))) = Inr data
         \<and> files (fst (snd (snd (receive_loop example_codec
            [?m1, ?m3] ([], example_index, old_fs, []))))) (path example_index) = Some data)"
    using t ok e example_quiet by simp
  show ?thesis
    using rt e a b c example_quiet by (simp add: toJsonMail_def)
qed

subsection \<open>The text handler\<close>

lemma txt_html_differ: "txtName dir base \<noteq> htmlName dir base"
  by (simp add: txtName_def htmlName_def)

lemma isPlain_not_isHtml: "isPlain D body \<Longrightarrow> \<not> isHtml D body"
  by (simp add: isPlain_def isHtml_def)

lemma WriteFile_no_faults:
  "no_faults fs \<Longrightarrow>
     WriteFile name data fs = (None, fs\<lparr>files := (files fs)(name \<mapsto> data)\<rparr>)
     \<and> no_faults (fs\<lparr>files := (files fs)(name \<mapsto> data)\<rparr>)"
  by (simp add: no_faults_def WriteFile_def)

lemma MkdirAll_no_faults:
  "no_faults fs \<Longrightarrow>
     MkdirAll dir fs = (None, fs\<lparr>dirs := insert dir (dirs fs)\<rparr>)
     \<and> no_faults (fs\<lparr>dirs := insert dir (dirs fs)\<rparr>)"
  by (simp add: no_faults_def MkdirAll_def)

lemma multipart_loop_skips:
  "multipart_loop D dir base bodies fs
     = multipart_loop D dir base (filter (\<lambda>b. isPlain D b \<or> isHtml D b) bodies) fs"
  by (induction bodies arbitrary: fs)
     (auto simp: isPlain_def isHtml_def Let_def split: prod.splits option.splits)

lemma last_written_Cons:
  "last_written D dir base (b # bs) f
     = last_written D dir base bs
         (if isPlain D b then f(txtName dir base \<mapsto> b)
          else if isHtml D b then f(htmlName dir base \<mapsto> b) else f)"
  using txt_html_differ [of dir base] isPlain_not_isHtml [of D b]
  by (auto simp: last_written_def fun_eq_iff)

lemma multipart_loop_no_faults:
  "no_faults fs \<Longrightarrow>
     multipart_loop D dir base bodies fs
       = (None, fs\<lparr>files := last_written D dir base bodies (files fs)\<rparr>)"
proof (induction bodies arbitrary: fs)
  case Nil
  then show ?case by (simp add: last_written_def)
next
  case (Cons b bs)
  define g where "g = (if isPlain D b then (files fs)(txtName dir base \<mapsto> b)
          else if isHtml D b then (files fs)(htmlName dir base \<mapsto> b) else files fs)"
  have nf: "no_faults (fs\<lparr>files := g\<rparr>)"
    using Cons.prems by (simp add: no_faults_def)
  have step: "multipart_loop D dir base (b # bs) fs = multipart_loop D dir base bs (fs\<lparr>files := g\<rparr>)"
    using WriteFile_no_faults [OF Cons.prems, of "txtName dir base" b]
      WriteFile_no_faults [OF Cons.prems, of "htmlName dir base" b]
    by (simp add: g_def isPlain_def isHtml_def)
  have "multipart_loop D dir base bs (fs\<lparr>files := g\<rparr>)
      = (None, fs\<lparr>files := g\<rparr>\<lparr>files := last_written D dir base bs (files (fs\<lparr>files := g\<rparr>))\<rparr>)"
    by (rule Cons.IH [OF nf])
  also have "\<dots> = (None, fs\<lparr>files := last_written D dir base bs g\<rparr>)"
    by simp
  also have "last_written D dir base bs g = last_written D dir base (b # bs) (files fs)"
    unfolding g_def by (rule last_written_Cons [symmetric])
  finally show ?case using step by simp
qed

lemma example_names:
  "getDirectoryName ''mail'' ''user'' example_mail = Inr ''mail/user/202401/b.com''
   \<and> baseFilename example_mail = ''Invoice-2024-01-02-7''
   \<and> mimeType (MimeType example_mail) = ''text/plain''
   \<and> mimeType ''multipart/related'' = ''multipart/related''
   \<and> mimeType ''multipart/alternative'' = ''multipart/alternative''
   \<and> isPlain sniff ''hello'' \<and> isPlain sniff ''first'' \<and> isPlain sniff ''second''
   \<and> isHtml sniff ''<html><p>x</p></html>'' \<and> \<not> isPlain sniff ''<html><p>x</p></html>''
   \<and> \<not> isPlain sniff ''%PDF-1.4'' \<and> \<not> isHtml sniff ''%PDF-1.4''"
  by code_simp

lemma example_mail_names:
  "getDirectoryName ''mail'' ''user'' related_mail = Inr ''mail/user/202401/b.com''
   \<and> getDirectoryName ''mail'' ''user'' multipart_mail = Inr ''mail/user/202401/b.com''
   \<and> baseFilename related_mail = ''Invoice-2024-01-02-7''
   \<and> baseFilename multipart_mail = ''Invoice-2024-01-02-7''
   \<and> mimeType (MimeType related_mail) = ''multipart/related''
   \<and> mimeType (MimeType multipart_mail) = ''multipart/alternative''
   \<and> txtName ''mail/user/202401/b.com'' ''Invoice-2024-01-02-7''
       = ''mail/user/202401/b.com/Invoice-2024-01-02-7.txt''
   \<and> htmlName ''mail/user/202401/b.com'' ''Invoice-2024-01-02-7''
       = ''mail/user/202401/b.com/Invoice-2024-01-02-7.html''"
  by code_simp

lemma Handle_no_faults:
  assumes "no_faults fs" and "getDirectoryName ''mail'' username m = Inr dir" and "Body m \<noteq> []"
  shows "TextHandler_Handle D username config m fs =
     (if mimeType (MimeType m) = ''text/plain'' then
        Inr (None, fs\<lparr>dirs := insert dir (dirs fs),
                       files := (files fs)(txtName dir (baseFilename m) \<mapsto> hd (Body m))\<rparr>)
      else if mimeType (MimeType m) = ''text/html'' then
        Inr (None, fs\<lparr>dirs := insert dir (dirs fs),
                       files := (files fs)(htmlName dir (baseFilename m) \<mapsto> hd (Body m))\<rparr>)
      else if mimeType (MimeType m) = ''multipart/alternative'' \<or> mimeType (MimeType m) = ''multipart/mixed'' then
        Inr (None, fs\<lparr>dirs := insert dir (dirs fs),
                       files := last_written D dir (baseFilename m) (Body m) (files fs)\<rparr>)
      else Inr (None, fs\<lparr>dirs := insert dir (dirs fs)\<rparr>))"
proof -
  let ?fs = "fs\<lparr>dirs := insert dir (dirs fs)\<rparr>"
  note mk = MkdirAll_no_faults [OF assms(1), of dir]
  then have nf: "no_faults ?fs" by simp
  note w1 = WriteFile_no_faults [OF nf, of "txtName dir (baseFilename m)" "hd (Body m)"]
  note w2 = WriteFile_no_faults [OF nf, of "htmlName dir (baseFilename m)" "hd (Body m)"]
  note lp = multipart_loop_no_faults [OF nf, of D dir "baseFilename m" "Body m"]
  show ?thesis
    using assms(2,3) mk w1 w2 lp
    by (simp add: TextHandler_Handle_def Let_def)
qed

subsection \<open>C8: what the text handler writes for each top-level type\<close>

text \<open>
  Claim C8 as stated: for every multipart top-level type the handler goes through the
  inline bodies. A mail of type \<^verbatim>\<open>multipart/related\<close> with one body of plain text: the
  handler makes the directory and writes no file.
\<close>

theorem C8_counterexample:
  "take 10 (mimeType (MimeType related_mail)) = ''multipart/''
   \<and> Body related_mail = [''hello''] \<and> isPlain sniff ''hello''
   \<and> TextHandler_Handle sniff ''user'' () related_mail empty_fs
       = Inr (None, empty_fs\<lparr>dirs := {''mail/user/202401/b.com''}\<rparr>)
   \<and> files (empty_fs\<lparr>dirs := {''mail/user/202401/b.com''}\<rparr>)
        (txtName ''mail/user/202401/b.com'' (baseFilename related_mail)) = None"
proof -
  have b: "Body related_mail = [''hello'']"
    by (simp add: related_mail_def example_mail_def)
  have h: "TextHandler_Handle sniff ''user'' () related_mail empty_fs
       = Inr (None, empty_fs\<lparr>dirs := {''mail/user/202401/b.com''}\<rparr>)"
    using Handle_no_faults [of empty_fs "''user''" related_mail "''mail/user/202401/b.com''" sniff "()"]
      no_faults_examples example_mail_names b
    by (simp add: empty_fs_def)
  show ?thesis using b h example_names example_mail_names by (simp add: empty_fs_def)
qed

text \<open>
  Claim C8, amended. On a file system where nothing fails, for a mail with a sender and
  the directory \<open>dir\<close> that getDirectoryName gives: a mail without an inline body changes
  nothing. Otherwise the handler makes the directory, and for the top-level type
  \<^verbatim>\<open>text/plain\<close> writes the first body to the text file, for \<^verbatim>\<open>text/html\<close> writes the first
  body to the HTML file, for \<^verbatim>\<open>multipart/alternative\<close> and \<^verbatim>\<open>multipart/mixed\<close> goes through
  the inline bodies and writes each one sniffed as plain text to the text file and each
  one sniffed as HTML to the HTML file, a body sniffed as neither making no difference;
  for every other top-level type, the other multipart types included, it writes no file.
\<close>

theorem C8_text_handler_by_type:
  assumes "no_faults fs" and "getDirectoryName ''mail'' username m = Inr dir"
  shows "(Body m0 = [] \<longrightarrow> TextHandler_Handle D username config m0 fs0 = Inr (None, fs0))
       \<and> (Body m \<noteq> [] \<and> mimeType (MimeType m) = ''text/plain'' \<longrightarrow>
            TextHandler_Handle D username config m fs
              = Inr (None, fs\<lparr>dirs := insert dir (dirs fs),
                               files := (files fs)(txtName dir (baseFilename m) \<mapsto> hd (Body m))\<rparr>))
       \<and> (Body m \<noteq> [] \<and> mimeType (MimeType m) = ''text/html'' \<longrightarrow>
            TextHandler_Handle D username config m fs
              = Inr (None, fs\<lparr>dirs := insert dir (dirs fs),
                               files := (files fs)(htmlName dir (baseFilename m) \<mapsto> hd (Body m))\<rparr>))
       \<and> (Body m \<noteq> []
            \<and> (mimeType (MimeType m) = ''multipart/alternative'' \<or> mimeType (MimeType m) = ''multipart/mixed'') \<longrightarrow>
            TextHandler_Handle D username config m fs
              = Inr (None, fs\<lparr>dirs := insert dir (dirs fs),
                               files := last_written D dir (baseFilename m) (Body m) (files fs)\<rparr>)
          \<and> TextHandler_Handle D username config m fs
              = Inr (multipart_loop D dir (baseFilename m)
                       (filter (\<lambda>b. isPlain D b \<or> isHtml D b) (Body m))
                       (fs\<lparr>dirs := insert dir (dirs fs)\<rparr>)))
       \<and> (Body m \<noteq> [] \<and> mimeType (MimeType m) \<noteq> ''text/plain'' \<and> mimeType (MimeType m) \<noteq> ''text/html''
            \<and> mimeType (MimeType m) \<noteq> ''multipart/alternative''
            \<and> mimeType (MimeType m) \<noteq> ''multipart/mixed'' \<longrightarrow>
            TextHandler_Handle D username config m fs = Inr (None, fs\<lparr>dirs := insert dir (dirs fs)\<rparr>))"
proof -
  have empty: "Body m0 = [] \<Longrightarrow> TextHandler_Handle D username config m0 fs0 = Inr (None, fs0)"
    by (simp add: TextHandler_Handle_def)
  note h = Handle_no_faults [OF assms, of D config]
  have nf: "no_faults (fs\<lparr>dirs := insert dir (dirs fs)\<rparr>)"
    using assms(1) by (simp add: no_faults_def)
  have skip: "multipart_loop D dir (baseFilename m) (filter (\<lambda>b. isPlain D b \<or> isHtml D b) (Body m))
          (fs\<lparr>dirs := insert dir (dirs fs)\<rparr>)
      = (None, fs\<lparr>dirs := insert dir (dirs fs),
                   files := last_written D dir (baseFilename m) (Body m) (files fs)\<rparr>)"
    using multipart_loop_no_faults [OF nf, of D dir "baseFilename m" "Body m"]
      multipart_loop_skips [of D dir "baseFilename m" "Body m" "fs\<lparr>dirs := insert dir (dirs fs)\<rparr>"]
    by simp
  show ?thesis using empty h skip by auto
qed

text \<open>
  Instances: the plain message of the examples (its body goes to
  \<open>mail/user/202401/b.com/Invoice-2024-01-02-7.txt\<close>), a mail of type
  \<^verbatim>\<open>multipart/alternative\<close> with four bodies, and one of type \<^verbatim>\<open>multipart/related\<close>.
\<close>

theorem C8_text_handler_by_type_witness:
  "no_faults empty_fs
   \<and> getDirectoryName ''mail'' ''user'' example_mail = Inr ''mail/user/202401/b.com''
   \<and> (Body example_mail \<noteq> [] \<and> mimeType (MimeType example_mail) = ''text/plain'')
   \<and> TextHandler_Handle sniff ''user'' () example_mail empty_fs
       = Inr (None, empty_fs\<lparr>dirs := insert ''mail/user/202401/b.com'' (dirs empty_fs),
                files := (files empty_fs)(''mail/user/202401/b.com/Invoice-2024-01-02-7.txt'' \<mapsto> ''hello'')\<rparr>)
   \<and> getDirectoryName ''mail'' ''user'' multipart_mail = Inr ''mail/user/202401/b.com''
   \<and> (Body multipart_mail \<noteq> [] \<and> mimeType (MimeType multipart_mail) = ''multipart/alternative'')
   \<and> TextHandler_Handle sniff ''user'' () multipart_mail empty_fs
       = Inr (None, empty_fs\<lparr>dirs := insert ''mail/user/202401/b.com'' (dirs empty_fs),
                files := last_written sniff ''mail/user/202401/b.com'' ''Invoice-2024-01-02-7''
                           (Body multipart_mail) (files empty_fs)\<rparr>)
   \<and> getDirectoryName ''mail'' ''user'' related_mail = Inr ''mail/user/202401/b.com''
   \<and> (Body related_mail \<noteq> [] \<and> mimeType (MimeType related_mail) = ''multipart/related'')
   \<and> TextHandler_Handle sniff ''user'' () related_mail empty_fs
       = Inr (None, empty_fs\<lparr>dirs := insert ''mail/user/202401/b.com'' (dirs empty_fs)\<rparr>)
   \<and> Body (example_mail\<lparr>Body := []\<rparr>) = []
   \<and> TextHandler_Handle sniff ''user'' () (example_mail\<lparr>Body := []\<rparr>) empty_fs = Inr (None, empty_fs)"
proof -
  have nf: "no_faults empty_fs" using no_faults_examples by simp
  have d1: "getDirectoryName ''mail'' ''user'' example_mail = Inr ''mail/user/202401/b.com''"
    using example_names by simp
  have d2: "getDirectoryName ''mail'' ''user'' multipart_mail = Inr ''mail/user/202401/b.com''"
    and d3: "getDirectoryName ''mail'' ''user'' related_mail = Inr ''mail/user/202401/b.com''"
    using example_mail_names by simp_all
  have b: "Body example_mail \<noteq> [] \<and> Body multipart_mail \<noteq> [] \<and> Body related_mail \<noteq> []
      \<and> hd (Body example_mail) = ''hello''"
    by (simp add: example_mail_def multipart_mail_def related_mail_def)
  note t1 = C8_text_handler_by_type [OF nf d1, where D = sniff and config = "()"
      and ?m0.0 = "example_mail\<lparr>Body := []\<rparr>" and ?fs0.0 = empty_fs]
  note t2 = C8_text_handler_by_type [OF nf d2, where D = sniff and config = "()"]
  note t3 = C8_text_handler_by_type [OF nf d3, where D = sniff and config = "()"]
  show ?thesis
    using t1 t2 t3 nf d1 d2 d3 b example_names example_mail_names by simp
qed

subsection \<open>C10: the multipart branch writes every plain body to one file\<close>

text \<open>
  Claim C10. In the multipart branch, on a file system where nothing fails, every inline
  body sniffed as plain text is written to the one file
  \<^verbatim>\<open><dir>/<subject>-<date>-<uid>.txt\<close> and every body sniffed as HTML to the one file
  \<^verbatim>\<open><dir>/<subject>-<date>-<uid>.html\<close>; the name does not depend on the part. After the
  handler the text file holds the last plain body and the HTML file the last HTML body
  (a file is as before when there is no such body), and no other file has changed. For
  two plain bodies the file holds the first after one turn of the loop and the second
  after the next.
\<close>

theorem C10_later_part_overwrites:
  assumes "no_faults fs" and "getDirectoryName ''mail'' username m = Inr dir" and "Body m \<noteq> []"
    and "mimeType (MimeType m) = ''multipart/alternative'' \<or> mimeType (MimeType m) = ''multipart/mixed''"
  shows "\<exists>fs'. TextHandler_Handle D username config m fs = Inr (None, fs')
           \<and> (filter (isPlain D) (Body m) \<noteq> [] \<longrightarrow>
                files fs' (txtName dir (baseFilename m)) = Some (last (filter (isPlain D) (Body m))))
           \<and> (filter (isPlain D) (Body m) = [] \<longrightarrow>
                files fs' (txtName dir (baseFilename m)) = files fs (txtName dir (baseFilename m)))
           \<and> (filter (isHtml D) (Body m) \<noteq> [] \<longrightarrow>
                files fs' (htmlName dir (baseFilename m)) = Some (last (filter (isHtml D) (Body m))))
           \<and> (filter (isHtml D) (Body m) = [] \<longrightarrow>
                files fs' (htmlName dir (baseFilename m)) = files fs (htmlName dir (baseFilename m)))
           \<and> (\<forall>p. p \<noteq> txtName dir (baseFilename m) \<and> p \<noteq> htmlName dir (baseFilename m) \<longrightarrow>
                files fs' p = files fs p)
           \<and> txtName dir (baseFilename m)
               = dir @ ''/'' @ sanitizeSubject (Subject m) @ ''-'' @ Format_2006_01_02 (Date m)
                   @ ''-'' @ showNat (unat (Uid m)) @ ''.txt''
           \<and> htmlName dir (baseFilename m)
               = dir @ ''/'' @ sanitizeSubject (Subject m) @ ''-'' @ Format_2006_01_02 (Date m)
                   @ ''-'' @ showNat (unat (Uid m)) @ ''.html''
           \<and> (isPlain D b1 \<and> isPlain D b2 \<longrightarrow>
                files (snd (multipart_loop D dir (baseFilename m) [b1] fs)) (txtName dir (baseFilename m))
                  = Some b1
              \<and> files (snd (multipart_loop D dir (baseFilename m) [b1, b2] fs)) (txtName dir (baseFilename m))
                  = Some b2)"
proof -
  let ?fs' = "fs\<lparr>dirs := insert dir (dirs fs),
                 files := last_written D dir (baseFilename m) (Body m) (files fs)\<rparr>"
  have h: "TextHandler_Handle D username config m fs = Inr (None, ?fs')"
    using Handle_no_faults [OF assms(1,2,3), of D config] assms(4) by auto
  have f: "files ?fs' = last_written D dir (baseFilename m) (Body m) (files fs)"
    by simp
  have two: "files (snd (multipart_loop D dir (baseFilename m) [b1] fs)) (txtName dir (baseFilename m)) = Some b1
       \<and> files (snd (multipart_loop D dir (baseFilename m) [b1, b2] fs)) (txtName dir (baseFilename m)) = Some b2"
    if "isPlain D b1" "isPlain D b2"
    unfolding multipart_loop_no_faults [OF assms(1)]
    using that by (simp add: last_written_def)
  have names: "txtName dir (baseFilename m)
               = dir @ ''/'' @ sanitizeSubject (Subject m) @ ''-'' @ Format_2006_01_02 (Date m)
                   @ ''-'' @ showNat (unat (Uid m)) @ ''.txt''
           \<and> htmlName dir (baseFilename m)
               = dir @ ''/'' @ sanitizeSubject (Subject m) @ ''-'' @ Format_2006_01_02 (Date m)
                   @ ''-'' @ showNat (unat (Uid m)) @ ''.html''"
    by (simp add: txtName_def htmlName_def baseFilename_def)
  have files: "(filter (isPlain D) (Body m) \<noteq> [] \<longrightarrow>
                files ?fs' (txtName dir (baseFilename m)) = Some (last (filter (isPlain D) (Body m))))
           \<and> (filter (isPlain D) (Body m) = [] \<longrightarrow>
                files ?fs' (txtName dir (baseFilename m)) = files fs (txtName dir (baseFilename m)))
           \<and> (filter (isHtml D) (Body m) \<noteq> [] \<longrightarrow>
                files ?fs' (htmlName dir (baseFilename m)) = Some (last (filter (isHtml D) (Body m))))
           \<and> (filter (isHtml D) (Body m) = [] \<longrightarrow>
                files ?fs' (htmlName dir (baseFilename m)) = files fs (htmlName dir (baseFilename m)))
           \<and> (\<forall>p. p \<noteq> txtName dir (baseFilename m) \<and> p \<noteq> htmlName dir (baseFilename m) \<longrightarrow>
                files ?fs' p = files fs p)"
    unfolding f using txt_html_differ [of dir "baseFilename m"]
    by (auto simp: last_written_def)
  show ?thesis using h files names two by blast
qed

text \<open>
  An instance: of the bodies \<open>first\<close>, an HTML page, a PDF and \<open>second\<close> of
  \<open>multipart_mail\<close>, the text file holds \<open>second\<close> only.
\<close>

theorem C10_later_part_overwrites_witness:
  "no_faults empty_fs
   \<and> getDirectoryName ''mail'' ''user'' multipart_mail = Inr ''mail/user/202401/b.com''
   \<and> Body multipart_mail \<noteq> []
   \<and> mimeType (MimeType multipart_mail) = ''multipart/alternative''
   \<and> filter (isPlain sniff) (Body multipart_mail) = [''first'', ''second'']
   \<and> filter (isHtml sniff) (Body multipart_mail) = [''<html><p>x</p></html>'']
   \<and> (\<exists>fs'. TextHandler_Handle sniff ''user'' () multipart_mail empty_fs = Inr (None, fs')
         \<and> files fs' ''mail/user/202401/b.com/Invoice-2024-01-02-7.txt'' = Some ''second''
         \<and> files fs' ''mail/user/202401/b.com/Invoice-2024-01-02-7.html'' = Some ''<html><p>x</p></html>'')
   \<and> (isPlain sniff ''first'' \<and> isPlain sniff ''second'')
   \<and> files (snd (multipart_loop sniff ''mail/user/202401/b.com'' (baseFilename multipart_mail)
          [''first''] empty_fs)) ''mail/user/202401/b.com/Invoice-2024-01-02-7.txt'' = Some ''first''
   \<and> files (snd (multipart_loop sniff ''mail/user/202401/b.com'' (baseFilename multipart_mail)
          [''first'', ''second''] empty_fs)) ''mail/user/202401/b.com/Invoice-2024-01-02-7.txt'' = Some ''second''"
proof -
  have nf: "no_faults empty_fs" using no_faults_examples by simp
  have d: "getDirectoryName ''mail'' ''user'' multipart_mail = Inr ''mail/user/202401/b.com''"
    using example_mail_names by simp
  have b: "Body multipart_mail \<noteq> []"
    by (simp add: multipart_mail_def)
  have t: "mimeType (MimeType multipart_mail) = ''multipart/alternative''
         \<or> mimeType (MimeType multipart_mail) = ''multipart/mixed''"
    using example_mail_names by simp
  have p: "filter (isPlain sniff) (Body multipart_mail) = [''first'', ''second'']
         \<and> filter (isHtml sniff) (Body multipart_mail) = [''<html><p>x</p></html>'']"
    using example_names isPlain_not_isHtml [of sniff] by (auto simp: multipart_mail_def)
  have n: "txtName ''mail/user/202401/b.com'' (baseFilename multipart_mail)
         = ''mail/user/202401/b.com/Invoice-2024-01-02-7.txt''
       \<and> htmlName ''mail/user/202401/b.com'' (baseFilename multipart_mail)
         = ''mail/user/202401/b.com/Invoice-2024-01-02-7.html''"
    using example_mail_names by simp
  from C10_later_part_overwrites [OF nf d b t, of sniff "()" "''first''" "''second''"]
  obtain fs' where fs': "TextHandler_Handle sniff ''user'' () multipart_mail empty_fs = Inr (None, fs')"
    "files fs' ''mail/user/202401/b.com/Invoice-2024-01-02-7.txt'' = Some ''second''"
    "files fs' ''mail/user/202401/b.com/Invoice-2024-01-02-7.html'' = Some ''<html><p>x</p></html>''"
    "files (snd (multipart_loop sniff ''mail/user/202401/b.com'' (baseFilename multipart_mail)
          [''first''] empty_fs)) ''mail/user/202401/b.com/Invoice-2024-01-02-7.txt'' = Some ''first''"
    "files (snd (multipart_loop sniff ''mail/user/202401/b.com'' (baseFilename multipart_mail)
          [''first'', ''second''] empty_fs)) ''mail/user/202401/b.com/Invoice-2024-01-02-7.txt'' = Some ''second''"
    using p n example_names by auto
  then show ?thesis using nf d b p example_mail_names example_names by blast
qed

end
